theory Spec2Isabelle
  imports Main "HOL-Library.Sublist"
begin

text \<open>
  The search tools of the research assistant (arxiv-tool.ts, jstage-tool.ts and
  web-search-tool.ts, which also hold the Semantic Scholar and the CORE tool) as functions
  of the state of their modules, of the time and of what the upstream answers: each call
  yields what it returns or throws, what it did to the outside, and the state behind it.
\<close>

section \<open>Strings\<close>

text \<open>
  A string of the tools is a list of code units. The model carries the code units below
  256 in \<^typ>\<open>char\<close>; on them the white space of \<^verbatim>\<open>\s\<close> and of \<^verbatim>\<open>trim()\<close> is
  TAB, LF, VT, FF, CR, SPACE and NBSP, and the line terminators that \<^verbatim>\<open>.\<close> excludes are
  LF and CR.
\<close>

definition isSpace :: "char \<Rightarrow> bool" where
  "isSpace c = (c \<in> set [CHR 0x09, CHR 0x0A, CHR 0x0B, CHR 0x0C, CHR 0x0D, CHR 0x20, CHR 0xA0])"

definition isLineTerminator :: "char \<Rightarrow> bool" where
  "isLineTerminator c = (c = CHR 0x0A \<or> c = CHR 0x0D)"

definition isDigit :: "char \<Rightarrow> bool" where
  "isDigit c = (c \<in> set ''0123456789'')"

text \<open>
  Case folding of the \<^verbatim>\<open>i\<close> flag. Every pattern compiled with it is ASCII, and a code
  unit above 127 never folds to an ASCII one, so folding the ASCII letters is exact.
\<close>

definition toUpperAscii :: "char \<Rightarrow> char" where
  "toUpperAscii c =
     (case map_of (zip ''abcdefghijklmnopqrstuvwxyz'' ''ABCDEFGHIJKLMNOPQRSTUVWXYZ'') c of
        Some u \<Rightarrow> u | None \<Rightarrow> c)"

fun startsWithI :: "string \<Rightarrow> string \<Rightarrow> bool" where
  "startsWithI s [] = True"
| "startsWithI [] (a # p) = False"
| "startsWithI (x # xs) (a # p) = (toUpperAscii x = toUpperAscii a \<and> startsWithI xs p)"

definition startsWith :: "string \<Rightarrow> string \<Rightarrow> bool" where
  "startsWith s p = prefix p s"

definition endsWith :: "string \<Rightarrow> string \<Rightarrow> bool" where
  "endsWith s p = prefix (rev p) (rev s)"

fun includes_str :: "string \<Rightarrow> string \<Rightarrow> bool" where
  "includes_str [] p = (p = [])"
| "includes_str (x # xs) p = (prefix p (x # xs) \<or> includes_str xs p)"

text \<open>\<^verbatim>\<open>s.replace(p, r)\<close> with a string pattern: the first occurrence only.\<close>

fun replaceFirst :: "string \<Rightarrow> string \<Rightarrow> string \<Rightarrow> string" where
  "replaceFirst [] p r = (if p = [] then r else [])"
| "replaceFirst (x # xs) p r =
     (if prefix p (x # xs) then r @ drop (length p) (x # xs) else x # replaceFirst xs p r)"

definition trim :: "string \<Rightarrow> string" where
  "trim s = rev (dropWhile isSpace (rev (dropWhile isSpace s)))"

section \<open>Regular expressions\<close>

text \<open>
  The regular expressions of the tools are sequences of literals and of one quantified
  character class each, with at most one capture group, which holds one quantified class.
  \<open>Rep True q c\<close> is the class \<open>c\<close> under the quantifier \<open>q\<close> inside the capture group,
  \<open>Rep False q c\<close> the same outside a group; \<open>Ch c\<close> is the class once; \<open>LitI\<close> is a
  literal under the \<^verbatim>\<open>i\<close> flag; \<open>End\<close> is \<^verbatim>\<open>$\<close>.
\<close>

datatype cls = AnyCh | Dot | NotCh char | Space | Digit

fun in_cls :: "cls \<Rightarrow> char \<Rightarrow> bool" where
  "in_cls AnyCh c = True"
| "in_cls Dot c = (\<not> isLineTerminator c)"
| "in_cls (NotCh d) c = (c \<noteq> d)"
| "in_cls Space c = isSpace c"
| "in_cls Digit c = isDigit c"

datatype quant = Greedy0 | Greedy1 | Lazy0

datatype tok = Lit string | LitI string | Ch cls | Rep bool quant cls | End

text \<open>
  The backtracking matcher, anchored at the head of the string: the capture and the
  rest of the string behind the match. A greedy quantifier tries the longer repetition
  first, a lazy one the shorter.
\<close>

fun rmatch :: "tok list \<Rightarrow> string \<Rightarrow> (string \<times> string) option" where
  "rmatch [] s = Some ([], s)"
| "rmatch (Lit p # ts) s = (if prefix p s then rmatch ts (drop (length p) s) else None)"
| "rmatch (LitI p # ts) s = (if startsWithI s p then rmatch ts (drop (length p) s) else None)"
| "rmatch (Ch c # ts) [] = None"
| "rmatch (Ch c # ts) (x # xs) = (if in_cls c x then rmatch ts xs else None)"
| "rmatch (End # ts) s = (if s = [] then rmatch ts [] else None)"
| "rmatch (Rep k Greedy0 c # ts) [] =
     (case rmatch ts [] of None \<Rightarrow> None | Some (g, r) \<Rightarrow> Some (if k then [] else g, r))"
| "rmatch (Rep k Greedy0 c # ts) (x # xs) =
     (case (if in_cls c x then rmatch (Rep k Greedy0 c # ts) xs else None) of
        Some (g, r) \<Rightarrow> Some (if k then x # g else g, r)
      | None \<Rightarrow>
          (case rmatch ts (x # xs) of
             None \<Rightarrow> None | Some (g, r) \<Rightarrow> Some (if k then [] else g, r)))"
| "rmatch (Rep k Greedy1 c # ts) [] = None"
| "rmatch (Rep k Greedy1 c # ts) (x # xs) =
     (if in_cls c x then
        (case rmatch (Rep k Greedy0 c # ts) xs of
           None \<Rightarrow> None | Some (g, r) \<Rightarrow> Some (if k then x # g else g, r))
      else None)"
| "rmatch (Rep k Lazy0 c # ts) [] =
     (case rmatch ts [] of None \<Rightarrow> None | Some (g, r) \<Rightarrow> Some (if k then [] else g, r))"
| "rmatch (Rep k Lazy0 c # ts) (x # xs) =
     (case rmatch ts (x # xs) of
        Some (g, r) \<Rightarrow> Some (if k then [] else g, r)
      | None \<Rightarrow>
          (if in_cls c x then
             (case rmatch (Rep k Lazy0 c # ts) xs of
                None \<Rightarrow> None | Some (g, r) \<Rightarrow> Some (if k then x # g else g, r))
           else None))"

text \<open>
  \<^verbatim>\<open>s.match(re)\<close> without the \<^verbatim>\<open>g\<close> flag: the leftmost match, as the matched text,
  the capture and the rest behind the match.
\<close>

fun rsearch :: "tok list \<Rightarrow> string \<Rightarrow> (string \<times> string \<times> string) option" where
  "rsearch re [] =
     (case rmatch re [] of None \<Rightarrow> None | Some (g, r) \<Rightarrow> Some ([], g, r))"
| "rsearch re (x # xs) =
     (case rmatch re (x # xs) of
        Some (g, r) \<Rightarrow> Some (take (length (x # xs) - length r) (x # xs), g, r)
      | None \<Rightarrow> rsearch re xs)"

text \<open>
  Every match under the \<^verbatim>\<open>g\<close> flag (\<^verbatim>\<open>exec\<close> in a loop, \<^verbatim>\<open>matchAll\<close>,
  \<^verbatim>\<open>match\<close>), each as matched text and capture. The search resumes behind the match;
  behind a match that consumed nothing it resumes one code unit further.
\<close>

function rall :: "tok list \<Rightarrow> string \<Rightarrow> (string \<times> string) list" where
  "rall re s =
     (case rsearch re s of
        None \<Rightarrow> []
      | Some (w, g, r) \<Rightarrow>
          (w, g) # (if length r < length s then rall re r
                    else (case s of [] \<Rightarrow> [] | x # xs \<Rightarrow> rall re xs)))"
  by pat_completeness auto
termination
  by (relation "measure (\<lambda>(re, s). length s)") auto

text \<open>
  \<^verbatim>\<open>s.replace(re, f)\<close> under the \<^verbatim>\<open>g\<close> flag, the replacement \<open>f\<close> a function of the
  capture.
\<close>

function replaceAll :: "tok list \<Rightarrow> (string \<Rightarrow> string) \<Rightarrow> string \<Rightarrow> string" where
  "replaceAll re f s =
     (case rmatch re s of
        Some (g, r) \<Rightarrow>
          (if length r < length s then f g @ replaceAll re f r
           else f g @ (case s of [] \<Rightarrow> [] | x # xs \<Rightarrow> x # replaceAll re f xs))
      | None \<Rightarrow> (case s of [] \<Rightarrow> [] | x # xs \<Rightarrow> x # replaceAll re f xs))"
  by pat_completeness auto
termination
  by (relation "measure (\<lambda>(re, f, s). length s)") auto

declare rall.simps [simp del] replaceAll.simps [simp del]

text \<open>
  A token that cannot match the empty string. Every regular expression of the tools
  starts with one, so none of their matches is empty.
\<close>

fun consumes :: "tok \<Rightarrow> bool" where
  "consumes (Lit p) = (p \<noteq> [])"
| "consumes (LitI p) = (p \<noteq> [])"
| "consumes (Ch c) = True"
| "consumes (Rep k q c) = (q = Greedy1)"
| "consumes End = False"

section \<open>Errors, requests and the state of the tool modules\<close>

datatype source = ArXiv | SemanticScholar | JStage

text \<open>
  Every \<^verbatim>\<open>throw\<close> of the tools is a constructor; the text of a message is kept as the
  values it is built from. \<open>RuntimeError\<close> is an \<^verbatim>\<open>Error\<close> the runtime raises
  (\<^verbatim>\<open>fetch\<close>, \<^verbatim>\<open>response.text()\<close>, \<^verbatim>\<open>response.json()\<close>), \<open>NonError\<close> a thrown
  value that is no instance of \<^verbatim>\<open>Error\<close> and that \<^verbatim>\<open>String\<close> converts. \<open>Inconvertible\<close>
  is a thrown value that is no instance of \<^verbatim>\<open>Error\<close> and has no conversion to a string
  (an object with neither \<^verbatim>\<open>toString\<close> nor \<^verbatim>\<open>valueOf\<close>, such as
  \<^verbatim>\<open>Object.create(null)\<close>); \<open>ConversionError\<close> is the \<^verbatim>\<open>TypeError\<close> that
  \<^verbatim>\<open>String(value)\<close> throws for such a value.
\<close>

datatype error =
    RuntimeError string
  | NonError
  | CooldownActive int
  | RequestFailed source nat string
  | RateLimitExceeded
  | CoreApiError nat
  | ApiKeyNotFound
  | FailedToSearch source error
  | FailedToSearchUnknown source
  | Inconvertible
  | ConversionError

text \<open>
  The \<^verbatim>\<open>catch\<close> block that ends \<^verbatim>\<open>searchArxiv\<close>, \<^verbatim>\<open>searchSemanticScholar\<close> and
  \<^verbatim>\<open>searchJstage\<close>: \<^verbatim>\<open>error instanceof Error\<close> decides, and no thrown value is
  converted.
\<close>

fun rethrow :: "source \<Rightarrow> error \<Rightarrow> error" where
  "rethrow src NonError = FailedToSearchUnknown src"
| "rethrow src Inconvertible = FailedToSearchUnknown src"
| "rethrow src e = FailedToSearch src e"

text \<open>
  A value of a query parameter: a string, or \<open>Num n\<close> for \<^verbatim>\<open>n.toString()\<close>. Numbers
  are modelled as integers.
\<close>

datatype pval = Str string | Num int

text \<open>
  What a call does to the outside, in order: a timed suspension
  (\<^verbatim>\<open>await new Promise(resolve => setTimeout(resolve, ms))\<close>), a \<^verbatim>\<open>fetch\<close> of a
  base URL with its query parameters and request headers, and a
  \<^verbatim>\<open>generateContent\<close> of the generative model on the prompt built from a query.
\<close>

datatype effect =
    Sleep int
  | Fetch (url: string) (params: "(string \<times> pval) list") (headers: "(string \<times> string) list")
  | GenerateContent string

text \<open>
  A response of \<^verbatim>\<open>fetch\<close>: its status line, and its body as \<^verbatim>\<open>text()\<close> or
  \<^verbatim>\<open>json()\<close> resolves it (\<open>Inl\<close> when that rejects). \<open>FetchThrows\<close> is a \<^verbatim>\<open>fetch\<close>
  that rejects.
\<close>

datatype 'b response = Response (status: nat) (statusText: string) (body: "error + 'b")

datatype 'b fetched = FetchThrows error | Fetched "'b response"

definition ok :: "'b response \<Rightarrow> bool" where
  "ok r = (200 \<le> status r \<and> status r \<le> 299)"

record CollectedUrlEntry =
  c_id :: string
  c_title :: string
  c_url :: string
  c_source :: string

text \<open>
  The module-level variables of the tool modules; \<open>genai\<close> tells whether the client
  singleton of web-search-tool.ts has been created.
\<close>

record tool_state =
  lastArxivCall :: int
  collectedArxivUrls :: "CollectedUrlEntry list"
  lastSemanticScholarCall :: int
  collectedUrls :: "CollectedUrlEntry list"
  lastJstageCall :: int
  collectedJstageUrls :: "CollectedUrlEntry list"
  genai :: bool

definition initial_state :: tool_state where
  "initial_state =
     \<lparr>lastArxivCall = 0, collectedArxivUrls = [],
      lastSemanticScholarCall = 0, collectedUrls = [],
      lastJstageCall = 0, collectedJstageUrls = [],
      genai = False\<rparr>"

text \<open>
  What a tool returns: \<^verbatim>\<open>{papers}\<close> (arXiv, Semantic Scholar) or
  \<^verbatim>\<open>{papers, totalResults}\<close> (J-STAGE, CORE).
\<close>

record 'p papers_only =
  papers :: "'p list"

record 'p papers_total = "'p papers_only" +
  totalResults :: int

text \<open>The outcome of one call: what it returns or throws, its effects, the state after.\<close>

record 'a run =
  result :: "error + 'a"
  effects :: "effect list"
  after :: tool_state

text \<open>
  The regular expression that cuts the report of the conference search into sections,
  \<^verbatim>\<open>/#### \d+\.\s*([\s\S]*?)(?=#### \d+\.|...|$)/g\<close>, and the ones for the authors, the
  conference and the abstract of a section hold code units above 255. Their matches are
  taken from the runtime: each section that \<^verbatim>\<open>text.match\<close> yields, with the first
  capture of the authors, conference and abstract expression in it (\<open>None\<close> for no match).
\<close>

record SectionMatch =
  matched :: string
  authorsMatch :: "string option"
  conferenceMatch :: "string option"
  abstractMatch :: "string option"

text \<open>
  What the tools read from the runtime: \<^verbatim>\<open>new Date(s).toISOString()\<close> (\<open>None\<close> when
  it throws a RangeError), \<^verbatim>\<open>encodeURIComponent\<close>, \<^verbatim>\<open>new Date().getFullYear()\<close> and
  the variables of \<^verbatim>\<open>process.env\<close> (\<open>None\<close> when unset); \<open>paperMatches\<close> is the
  sections of a report as above (\<open>None\<close> when \<^verbatim>\<open>text.match\<close> returns \<^verbatim>\<open>null\<close>).
\<close>

record runtime =
  toISOString :: "string \<Rightarrow> string option"
  encodeURIComponent :: "string \<Rightarrow> string"
  getFullYear :: int
  CORE_API_KEY :: "string option"
  GEMINI_API_KEY :: "string option"
  GOOGLE_GENERATIVE_AI_API_KEY :: "string option"
  paperMatches :: "string \<Rightarrow> SectionMatch list option"

definition ARXIV_COOLDOWN_MS :: int where
  "ARXIV_COOLDOWN_MS = 30000"

definition SEMANTIC_SCHOLAR_COOLDOWN_MS :: int where
  "SEMANTIC_SCHOLAR_COOLDOWN_MS = 1000"

definition JSTAGE_COOLDOWN_MS :: int where
  "JSTAGE_COOLDOWN_MS = 1000"

section \<open>Values of a payload\<close>

text \<open>
  A property of a JSON object: absent (\<^verbatim>\<open>undefined\<close>), \<^verbatim>\<open>null\<close>, or a value of its
  type. \<open>or_str\<close>, \<open>or_int\<close> and \<open>or_list\<close> are \<^verbatim>\<open>x || d\<close> on a string, a number and
  an array: the empty string and 0 are falsy, an array never is.
\<close>

datatype 'a field = Undefined | Null | Present 'a

fun or_str :: "string field \<Rightarrow> string \<Rightarrow> string" where
  "or_str (Present s) d = (if s = [] then d else s)"
| "or_str f d = d"

fun or_int :: "int field \<Rightarrow> int \<Rightarrow> int" where
  "or_int (Present n) d = (if n = 0 then d else n)"
| "or_int f d = d"

fun or_list :: "'a list field \<Rightarrow> 'a list \<Rightarrow> 'a list" where
  "or_list (Present xs) d = xs"
| "or_list f d = d"

text \<open>A string property inside a template literal.\<close>

fun interpolate :: "string field \<Rightarrow> string" where
  "interpolate Undefined = ''undefined''"
| "interpolate Null = ''null''"
| "interpolate (Present s) = s"

text \<open>\<^verbatim>\<open>x || null\<close> and \<^verbatim>\<open>x || undefined\<close> on a string: \<open>None\<close> is the absent value.\<close>

definition or_none :: "string \<Rightarrow> string option" where
  "or_none s = (if s = [] then None else Some s)"

section \<open>arXiv\<close>

record ArxivEntry =
  e_id :: string
  e_title :: string
  e_authors :: "string list"
  e_abstract :: string
  e_categories :: "string list"
  e_published :: string
  e_updated :: string
  e_link :: string

record ArxivPaper =
  ap_title :: string
  ap_abstract :: string
  ap_published :: string
  pdfLink :: string
  arxivId :: string

definition entryRegex :: "tok list" where
  "entryRegex = [Lit ''<entry>'', Rep True Lazy0 AnyCh, Lit ''</entry>'']"

text \<open>\<^verbatim>\<open>new RegExp(`<${tag}[^>]*>(.*?)<\/${tag}>`, 's')\<close>\<close>

definition tagRegex :: "string \<Rightarrow> tok list" where
  "tagRegex tag =
     [Lit (''<'' @ tag), Rep False Greedy0 (NotCh CHR ''>''), Lit ''>'',
      Rep True Lazy0 AnyCh, Lit (''</'' @ tag @ ''>'')]"

text \<open>\<^verbatim>\<open>.trim().replace(/<[^>]*>/g, '').replace(/\s+/g, ' ')\<close>\<close>

definition markupRegex :: "tok list" where
  "markupRegex = [Lit ''<'', Rep False Greedy0 (NotCh CHR ''>''), Lit ''>'']"

definition spacesRegex :: "tok list" where
  "spacesRegex = [Rep False Greedy1 Space]"

definition cleanText :: "string \<Rightarrow> string" where
  "cleanText s =
     replaceAll spacesRegex (\<lambda>g. '' '') (replaceAll markupRegex (\<lambda>g. []) (trim s))"

definition extractText :: "string \<Rightarrow> string \<Rightarrow> string" where
  "extractText entryXml tag =
     (case rsearch (tagRegex tag) entryXml of
        Some (w, g, r) \<Rightarrow> cleanText g
      | None \<Rightarrow> [])"

definition extractMultiple :: "string \<Rightarrow> string \<Rightarrow> string list" where
  "extractMultiple entryXml tag = map (\<lambda>(w, g). cleanText g) (rall (tagRegex tag) entryXml)"

definition linkRegex :: "tok list" where
  \<open>linkRegex =
     [Lit ''<link'', Rep False Greedy0 (NotCh CHR ''>''), Lit ''href="'',
      Rep True Greedy0 (NotCh CHR 0x22), Lit ''"'', Rep False Greedy0 (NotCh CHR ''>''),
      Lit ''title="pdf"'']\<close>

definition abstractLinkRegex :: "tok list" where
  \<open>abstractLinkRegex =
     [Lit ''<link'', Rep False Greedy0 (NotCh CHR ''>''), Lit ''href="'',
      Rep True Greedy0 (NotCh CHR 0x22), Lit ''"'', Rep False Greedy0 (NotCh CHR ''>''),
      Lit ''type="text/html"'']\<close>

definition extractLink :: "string \<Rightarrow> string" where
  "extractLink entryXml =
     (case rsearch linkRegex entryXml of
        Some (w, g, r) \<Rightarrow> g
      | None \<Rightarrow>
          (case rsearch abstractLinkRegex entryXml of
             Some (w, g, r) \<Rightarrow> g
           | None \<Rightarrow> []))"

definition categoryRegex :: "tok list" where
  \<open>categoryRegex =
     [Lit ''<category'', Rep False Greedy0 (NotCh CHR ''>''), Lit ''term="'',
      Rep True Greedy0 (NotCh CHR 0x22), Lit ''"'', Rep False Greedy0 (NotCh CHR ''>''),
      Lit ''/>'']\<close>

text \<open>\<^verbatim>\<open>/abs\/(.+)$/\<close>\<close>

definition arxivIdRegex :: "tok list" where
  "arxivIdRegex = [Lit ''abs/'', Rep True Greedy1 Dot, End]"

definition formatDate :: "runtime \<Rightarrow> string \<Rightarrow> string" where
  "formatDate rt dateString =
     (if dateString = [] then []
      else (case toISOString rt dateString of
              Some isoString \<Rightarrow> takeWhile (\<lambda>c. c \<noteq> CHR ''T'') isoString
            | None \<Rightarrow> dateString))"

definition parseEntry :: "runtime \<Rightarrow> string \<Rightarrow> ArxivEntry option" where
  "parseEntry rt entryXml =
     (let fullId = extractText entryXml ''id'';
          title = extractText entryXml ''title'';
          abstract = extractText entryXml ''summary'';
          published = extractText entryXml ''published'';
          updated = extractText entryXml ''updated''
      in if fullId = [] \<or> title = [] then None
         else
           let authors = extractMultiple entryXml ''name'';
               categories = map snd (rall categoryRegex entryXml);
               arxivId = (case rsearch arxivIdRegex fullId of
                            Some (w, g, r) \<Rightarrow> g | None \<Rightarrow> fullId);
               link = extractLink entryXml
           in Some \<lparr>e_id = arxivId, e_title = title, e_authors = authors,
                     e_abstract = abstract, e_categories = categories,
                     e_published = formatDate rt published,
                     e_updated = formatDate rt updated,
                     e_link = (if link = [] then ''https://arxiv.org/abs/'' @ arxivId
                               else link)\<rparr>)"

text \<open>
  The \<^verbatim>\<open>while\<close> loop of \<^verbatim>\<open>parseArxivXML\<close> over the matches of \<open>entryRegex\<close>, with the
  array \<^verbatim>\<open>papers\<close> it pushes to (\<open>pushed\<close>). \<^verbatim>\<open>parseEntry\<close> throws nothing, so the \<^verbatim>\<open>catch\<close> of
  the loop body has no branch here.
\<close>

fun parseEntries :: "runtime \<Rightarrow> string list \<Rightarrow> ArxivEntry list \<Rightarrow> ArxivEntry list" where
  "parseEntries rt [] pushed = pushed"
| "parseEntries rt (entryXml # rest) pushed =
     (case parseEntry rt entryXml of
        Some paper \<Rightarrow> parseEntries rt rest (pushed @ [paper])
      | None \<Rightarrow> parseEntries rt rest pushed)"

definition parseArxivXML :: "runtime \<Rightarrow> string \<Rightarrow> ArxivEntry list" where
  "parseArxivXML rt xmlText = parseEntries rt (map snd (rall entryRegex xmlText)) []"

definition collectArxiv :: "CollectedUrlEntry list \<Rightarrow> ArxivEntry \<Rightarrow> CollectedUrlEntry list" where
  "collectArxiv collected paper =
     collected @ [\<lparr>c_id = e_id paper, c_title = e_title paper, c_url = e_link paper,
                   c_source = ''arXiv''\<rparr>]"

definition toPdfLink :: "string \<Rightarrow> string" where
  "toPdfLink link =
     (let pdfLink = (if includes_str link ''/abs/'' then replaceFirst link ''/abs/'' ''/pdf/''
                     else link)
      in if \<not> endsWith pdfLink ''.pdf'' then pdfLink @ ''.pdf'' else pdfLink)"

definition simplifyArxiv :: "ArxivEntry \<Rightarrow> ArxivPaper" where
  "simplifyArxiv paper =
     \<lparr>ap_title = e_title paper, ap_abstract = e_abstract paper,
      ap_published = e_published paper, pdfLink = toPdfLink (e_link paper),
      arxivId = e_id paper\<rparr>"

definition arxivRequest :: "string \<Rightarrow> int \<Rightarrow> string \<Rightarrow> effect" where
  "arxivRequest query maxResults sortBy =
     Fetch ''http://export.arxiv.org/api/query''
       [(''search_query'', Str query), (''start'', Str ''0''),
        (''max_results'', Num maxResults), (''sortBy'', Str sortBy),
        (''sortOrder'', Str ''descending'')] []"

text \<open>
  \<^verbatim>\<open>searchArxiv\<close>. \<open>now\<close> is what \<^verbatim>\<open>Date.now()\<close> returns, \<open>resp\<close> what the
  \<^verbatim>\<open>fetch\<close> of the call comes to, should the call reach it. The cooldown check stands
  before the \<^verbatim>\<open>try\<close>, so its error is thrown as it is; \<^verbatim>\<open>Math.ceil(waitTime / 1000)\<close>
  is \<open>- (- waitTime div 1000)\<close> on integers.
\<close>

definition searchArxiv ::
  "runtime \<Rightarrow> tool_state \<Rightarrow> string \<Rightarrow> int \<Rightarrow> string \<Rightarrow> int \<Rightarrow> string fetched
     \<Rightarrow> ArxivPaper papers_only run" where
  "searchArxiv rt st query maxResults sortBy now resp =
     (let timeSinceLastCall = now - lastArxivCall st
      in if timeSinceLastCall < ARXIV_COOLDOWN_MS then
           let waitTime = ARXIV_COOLDOWN_MS - timeSinceLastCall
           in \<lparr>result = Inl (CooldownActive (- (- waitTime div 1000))), effects = [],
               after = st\<rparr>
         else
           let request = arxivRequest query maxResults sortBy
           in case resp of
                FetchThrows e \<Rightarrow>
                  \<lparr>result = Inl (rethrow ArXiv e), effects = [request], after = st\<rparr>
              | Fetched response \<Rightarrow>
                  if \<not> ok response then
                    \<lparr>result = Inl (rethrow ArXiv
                        (RequestFailed ArXiv (status response) (statusText response))),
                     effects = [request], after = st\<rparr>
                  else
                    let st1 = st\<lparr>lastArxivCall := now\<rparr>
                    in (case body response of
                          Inl e \<Rightarrow>
                            \<lparr>result = Inl (rethrow ArXiv e), effects = [request],
                             after = st1\<rparr>
                        | Inr xmlText \<Rightarrow>
                            let papers = parseArxivXML rt xmlText;
                                st2 = st1\<lparr>collectedArxivUrls :=
                                           foldl collectArxiv (collectedArxivUrls st1) papers\<rparr>
                            in \<lparr>result = Inr \<lparr>papers = map simplifyArxiv papers\<rparr>,
                                effects = [request], after = st2\<rparr>))"

section \<open>Semantic Scholar\<close>

text \<open>
  A paper of the payload, an object of the Graph API with every property optional; the
  payload is taken well-typed (a property that is present holds a value of its type).
\<close>

record S2RawAuthor =
  ra_authorId :: "string field"
  ra_name :: "string field"

record S2Raw =
  r_paperId :: "string field"
  r_title :: "string field"
  r_abstract :: "string field"
  r_authors :: "S2RawAuthor list field"
  r_year :: "int field"
  r_citationCount :: "int field"
  r_venue :: "string field"
  r_publicationTypes :: "string list field"
  r_url :: "string field"
  r_openAccessPdf :: "(string \<times> string) field"
  r_fieldsOfStudy :: "string list field"

record S2Response =
  d_data :: "S2Raw list field"
  d_total :: "int field"

record S2Author =
  a_authorId :: "string field"
  a_name :: string

record S2PaperData =
  pd_paperId :: string
  pd_title :: string
  pd_abstract :: string
  pd_authors :: "S2Author list"
  pd_year :: "int field"
  pd_citationCount :: int
  pd_venue :: string
  pd_publicationTypes :: "string list"
  pd_url :: string
  pd_openAccessPdf :: "(string \<times> string) field"
  pd_fieldsOfStudy :: "string list"

record S2Paper =
  sp_title :: string
  sp_abstract :: string
  sp_year :: "int field"
  sp_citationCount :: int

definition s2PaperData :: "S2Raw \<Rightarrow> S2PaperData" where
  "s2PaperData paper =
     \<lparr>pd_paperId = or_str (r_paperId paper) [],
      pd_title = or_str (r_title paper) [],
      pd_abstract = or_str (r_abstract paper) [],
      pd_authors =
        map (\<lambda>author. \<lparr>a_authorId = ra_authorId author,
                         a_name = or_str (ra_name author) ''Unknown Author''\<rparr>)
          (or_list (r_authors paper) []),
      pd_year = r_year paper,
      pd_citationCount = or_int (r_citationCount paper) 0,
      pd_venue = or_str (r_venue paper) [],
      pd_publicationTypes = or_list (r_publicationTypes paper) [],
      pd_url = or_str (r_url paper)
                 (''https://www.semanticscholar.org/paper/'' @ interpolate (r_paperId paper)),
      pd_openAccessPdf = r_openAccessPdf paper,
      pd_fieldsOfStudy = or_list (r_fieldsOfStudy paper) []\<rparr>"

text \<open>
  The callback of \<^verbatim>\<open>(data.data || []).map\<close>, paper after paper: it pushes to
  \<^verbatim>\<open>collectedUrls\<close> and returns the reduced paper.
\<close>

fun s2Map :: "S2Raw list \<Rightarrow> CollectedUrlEntry list \<Rightarrow> S2Paper list \<times> CollectedUrlEntry list" where
  "s2Map [] collected = ([], collected)"
| "s2Map (paper # rest) collected =
     (let paperData = s2PaperData paper;
          pushed = collected @ [\<lparr>c_id = pd_paperId paperData, c_title = pd_title paperData,
                                  c_url = pd_url paperData, c_source = ''Semantic Scholar''\<rparr>];
          simplified = \<lparr>sp_title = pd_title paperData, sp_abstract = pd_abstract paperData,
                        sp_year = pd_year paperData,
                        sp_citationCount = pd_citationCount paperData\<rparr>;
          (mapped, final) = s2Map rest pushed
      in (simplified # mapped, final))"

definition s2Request :: "string \<Rightarrow> int \<Rightarrow> effect" where
  "s2Request query maxResults =
     Fetch ''https://api.semanticscholar.org/graph/v1/paper/search''
       [(''query'', Str query), (''limit'', Num (min maxResults 50)),
        (''fields'', Str ''paperId,title,abstract,authors,year,citationCount,venue,publicationTypes,url,openAccessPdf,fieldsOfStudy'')]
       [(''User-Agent'', ''Paper-Agent/1.0'')]"

text \<open>
  \<^verbatim>\<open>searchSemanticScholar\<close>. \<open>now\<close> is the \<^verbatim>\<open>Date.now()\<close> of the cooldown check,
  \<open>now2\<close> the one read behind a response that is ok.
\<close>

definition searchSemanticScholar ::
  "tool_state \<Rightarrow> string \<Rightarrow> int \<Rightarrow> int \<Rightarrow> int \<Rightarrow> S2Response fetched
     \<Rightarrow> S2Paper papers_only run" where
  "searchSemanticScholar st query maxResults now now2 resp =
     (let timeSinceLastCall = now - lastSemanticScholarCall st;
          waited = (if timeSinceLastCall < SEMANTIC_SCHOLAR_COOLDOWN_MS
                    then [Sleep (SEMANTIC_SCHOLAR_COOLDOWN_MS - timeSinceLastCall)] else []);
          trace = waited @ [s2Request query maxResults]
      in case resp of
           FetchThrows e \<Rightarrow>
             \<lparr>result = Inl (rethrow SemanticScholar e), effects = trace, after = st\<rparr>
         | Fetched response \<Rightarrow>
             if \<not> ok response then
               \<lparr>result = Inl (rethrow SemanticScholar
                   (if status response = 429 then RateLimitExceeded
                    else RequestFailed SemanticScholar (status response) (statusText response))),
                effects = trace, after = st\<rparr>
             else
               let st1 = st\<lparr>lastSemanticScholarCall := now2\<rparr>
               in (case body response of
                     Inl e \<Rightarrow>
                       \<lparr>result = Inl (rethrow SemanticScholar e), effects = trace, after = st1\<rparr>
                   | Inr json \<Rightarrow>
                       let (mapped, collected) =
                             s2Map (or_list (d_data json) []) (collectedUrls st1)
                       in \<lparr>result = Inr \<lparr>papers = mapped\<rparr>, effects = trace,
                           after = st1\<lparr>collectedUrls := collected\<rparr>\<rparr>))"

section \<open>J-STAGE\<close>

record JstagePaper =
  j_title :: string
  j_authors :: "string list"
  j_abstract :: string
  j_doi :: string
  j_journalTitle :: string
  j_volume :: string
  j_issueNumber :: string
  j_publicationDate :: string
  j_url :: string
  j_keywords :: "string list"

record JstageSimplified =
  js_title :: string
  js_authors :: "string list"
  js_publicationDate :: string
  js_doi :: "string option"
  js_journalTitle :: "string option"

text \<open>\<^verbatim>\<open>new RegExp(`<${tagName}[^>]*>([\\s\\S]*?)<\/${tagName}>`, 'i')\<close>\<close>

definition xmlTagRegex :: "string \<Rightarrow> tok list" where
  "xmlTagRegex tagName =
     [LitI (''<'' @ tagName), Rep False Greedy0 (NotCh CHR ''>''), LitI ''>'',
      Rep True Lazy0 AnyCh, LitI (''</'' @ tagName @ ''>'')]"

text \<open>\<^verbatim>\<open>/<!\[CDATA\[(.*?)\]\]>/g\<close>, replaced by \<^verbatim>\<open>'$1'\<close>\<close>

definition cdataRegex :: "tok list" where
  "cdataRegex = [Lit ''<![CDATA['', Rep True Lazy0 Dot, Lit '']]>'']"

definition extractXmlTag :: "string \<Rightarrow> string \<Rightarrow> string" where
  "extractXmlTag xml tagName =
     (case rsearch (xmlTagRegex tagName) xml of
        Some (w, g, r) \<Rightarrow> replaceAll cdataRegex (\<lambda>g. g) (trim g)
      | None \<Rightarrow> [])"

text \<open>\<^verbatim>\<open>/<entry[^>]*>[\s\S]*?<\/entry>/g\<close> and the same for \<^verbatim>\<open>item\<close>\<close>

definition blockRegex :: "string \<Rightarrow> tok list" where
  "blockRegex tag =
     [Lit (''<'' @ tag), Rep False Greedy0 (NotCh CHR ''>''), Lit ''>'',
      Rep False Lazy0 AnyCh, Lit (''</'' @ tag @ ''>'')]"

text \<open>\<^verbatim>\<open>/<dc:creator[^>]*>([^<]+)<\/dc:creator>/g\<close> and its like\<close>

definition leafRegex :: "string \<Rightarrow> tok list" where
  "leafRegex tag =
     [Lit (''<'' @ tag), Rep False Greedy0 (NotCh CHR ''>''), Lit ''>'',
      Rep True Greedy1 (NotCh CHR ''<''), Lit (''</'' @ tag @ ''>'')]"

text \<open>\<^verbatim>\<open>/<opensearch:totalResults[^>]*>(\d+)<\/opensearch:totalResults>/\<close>\<close>

definition totalResultsRegex :: "tok list" where
  "totalResultsRegex =
     [Lit ''<opensearch:totalResults'', Rep False Greedy0 (NotCh CHR ''>''), Lit ''>'',
      Rep True Greedy1 Digit, Lit ''</opensearch:totalResults>'']"

definition digitValue :: "char \<Rightarrow> int" where
  "digitValue c =
     (case map_of (zip ''0123456789'' [0, 1, 2, 3, 4, 5, 6, 7, 8, 9]) c of
        Some d \<Rightarrow> d | None \<Rightarrow> 0)"

text \<open>
  \<^verbatim>\<open>parseInt(digits, 10)\<close> on a string of decimal digits, as the integer the digits
  denote. \<^verbatim>\<open>parseInt\<close> returns a double: up to \<open>2 ^ 53\<close> that is this integer, above it the
  double next to it, which this definition does not round to.
\<close>

definition parseInt10 :: "string \<Rightarrow> int" where
  "parseInt10 digits = foldl (\<lambda>n c. 10 * n + digitValue c) 0 digits"

definition extractTotalHits :: "string \<Rightarrow> int" where
  "extractTotalHits xmlText =
     (case rsearch totalResultsRegex xmlText of
        Some (w, g, r) \<Rightarrow> parseInt10 g
      | None \<Rightarrow> 0)"

definition extractUrl :: "string \<Rightarrow> string" where
  "extractUrl xml =
     (let link = extractXmlTag xml ''link'' in
      if link \<noteq> [] then link
      else let guid = extractXmlTag xml ''guid'' in
      if guid \<noteq> [] then guid
      else let prismUrl = extractXmlTag xml ''prism:url'' in
      if prismUrl \<noteq> [] then prismUrl
      else let doi = extractXmlTag xml ''prism:doi'' in
      if doi \<noteq> [] then ''https://doi.org/'' @ doi
      else let identifier =
                 (let i = extractXmlTag xml ''prism:identifier''
                  in if i \<noteq> [] then i else extractXmlTag xml ''identifier'')
      in if identifier \<noteq> [] \<and> startsWith identifier ''http'' then identifier else [])"

text \<open>
  The loops of \<^verbatim>\<open>extractAuthors\<close> and \<^verbatim>\<open>extractKeywords\<close>: each matched element
  is read by \<^verbatim>\<open>extractXmlTag\<close> and pushed when it is not empty and not yet in the array.
\<close>

fun pushUnique :: "string \<Rightarrow> string list \<Rightarrow> string list \<Rightarrow> string list" where
  "pushUnique tag [] pushed = pushed"
| "pushUnique tag (m # ms) pushed =
     (let v = extractXmlTag m tag
      in pushUnique tag ms (if v \<noteq> [] \<and> v \<notin> set pushed then pushed @ [v] else pushed))"

definition extractAuthors :: "string \<Rightarrow> string list" where
  "extractAuthors xml =
     pushUnique ''prism:creatorName'' (map fst (rall (leafRegex ''prism:creatorName'') xml))
       (pushUnique ''dc:creator'' (map fst (rall (leafRegex ''dc:creator'') xml)) [])"

definition extractKeywords :: "string \<Rightarrow> string list" where
  "extractKeywords xml =
     pushUnique ''prism:keyword'' (map fst (rall (leafRegex ''prism:keyword'') xml)) []"

definition parseItem :: "string \<Rightarrow> JstagePaper" where
  "parseItem itemXml =
     (let title = (let t = extractXmlTag itemXml ''title'' in if t \<noteq> [] then t else ''No Title'');
          abstract = extractXmlTag itemXml ''description'';
          publicationDate = extractXmlTag itemXml ''prism:publicationDate''
      in \<lparr>j_title = title, j_authors = extractAuthors itemXml, j_abstract = abstract,
          j_doi = extractXmlTag itemXml ''prism:doi'',
          j_journalTitle = extractXmlTag itemXml ''prism:publicationName'',
          j_volume = extractXmlTag itemXml ''prism:volume'',
          j_issueNumber = extractXmlTag itemXml ''prism:number'',
          j_publicationDate = publicationDate, j_url = extractUrl itemXml,
          j_keywords = extractKeywords itemXml\<rparr>)"

text \<open>
  The \<^verbatim>\<open>for\<close> loop of \<^verbatim>\<open>parseJstageXML\<close> over the matched elements. Nothing in its
  body throws, so neither \<^verbatim>\<open>catch\<close> of the function has a branch here.
\<close>

fun parseItems :: "string list \<Rightarrow> JstagePaper list \<Rightarrow> JstagePaper list" where
  "parseItems [] pushed = pushed"
| "parseItems (itemXml # rest) pushed = parseItems rest (pushed @ [parseItem itemXml])"

definition matchedElements :: "string \<Rightarrow> string list" where
  "matchedElements xmlText =
     (let entries = map fst (rall (blockRegex ''entry'') xmlText)
      in if length entries = 0 then map fst (rall (blockRegex ''item'') xmlText) else entries)"

definition parseJstageXML :: "string \<Rightarrow> JstagePaper list" where
  "parseJstageXML xmlText = parseItems (matchedElements xmlText) []"

text \<open>
  The \<^verbatim>\<open>forEach\<close> that fills \<^verbatim>\<open>collectedJstageUrls\<close>. \<open>ids i\<close> is the string
  \<^verbatim>\<open>`jstage-${Date.now()}-${Math.random()}`\<close> as built for the paper at index \<open>i\<close>.
\<close>

fun collectJstage ::
  "runtime \<Rightarrow> (nat \<Rightarrow> string) \<Rightarrow> nat \<Rightarrow> JstagePaper list \<Rightarrow> CollectedUrlEntry list
     \<Rightarrow> CollectedUrlEntry list" where
  "collectJstage rt ids i [] collected = collected"
| "collectJstage rt ids i (paper # rest) collected =
     collectJstage rt ids (Suc i) rest
       (collected @
        [\<lparr>c_id = (if j_doi paper \<noteq> [] then j_doi paper else ids i),
          c_title = j_title paper,
          c_url = (if j_url paper \<noteq> [] then j_url paper
                   else ''https://www.jstage.jst.go.jp/search/global/_search/-char/ja?item=''
                        @ encodeURIComponent rt (j_title paper)),
          c_source = ''J-STAGE''\<rparr>])"

definition simplifyJstage :: "JstagePaper \<Rightarrow> JstageSimplified" where
  "simplifyJstage paper =
     \<lparr>js_title = j_title paper, js_authors = take 3 (j_authors paper),
      js_publicationDate = j_publicationDate paper, js_doi = or_none (j_doi paper),
      js_journalTitle = or_none (j_journalTitle paper)\<rparr>"

text \<open>An optional string argument is used when it is truthy.\<close>

fun optionalParam :: "string \<Rightarrow> string option \<Rightarrow> (string \<times> pval) list" where
  "optionalParam name None = []"
| "optionalParam name (Some v) = (if v = [] then [] else [(name, Str v)])"

definition jstageRequest ::
  "string \<Rightarrow> int \<Rightarrow> string option \<Rightarrow> string option \<Rightarrow> string option \<Rightarrow> effect" where
  "jstageRequest query maxResults material pubyearfrom pubyearto =
     Fetch ''https://api.jstage.jst.go.jp/searchapi/do''
       ([(''service'', Str ''3''), (''text'', Str query), (''start'', Str ''1''),
         (''count'', Num (min maxResults 100))]
        @ optionalParam ''material'' material
        @ optionalParam ''pubyearfrom'' pubyearfrom
        @ optionalParam ''pubyearto'' pubyearto)
       [(''User-Agent'', ''Paper-Agent/1.0''), (''Accept'', ''application/xml, text/xml'')]"

text \<open>
  \<^verbatim>\<open>searchJstage\<close>, with \<open>now\<close> and \<open>now2\<close> as for Semantic Scholar.
\<close>

definition searchJstage ::
  "runtime \<Rightarrow> tool_state \<Rightarrow> string \<Rightarrow> int \<Rightarrow> string option \<Rightarrow> string option \<Rightarrow> string option
     \<Rightarrow> int \<Rightarrow> int \<Rightarrow> (nat \<Rightarrow> string) \<Rightarrow> string fetched \<Rightarrow> JstageSimplified papers_total run" where
  "searchJstage rt st query maxResults material pubyearfrom pubyearto now now2 ids resp =
     (let timeSinceLastCall = now - lastJstageCall st;
          waited = (if timeSinceLastCall < JSTAGE_COOLDOWN_MS
                    then [Sleep (JSTAGE_COOLDOWN_MS - timeSinceLastCall)] else []);
          trace = waited @ [jstageRequest query maxResults material pubyearfrom pubyearto]
      in case resp of
           FetchThrows e \<Rightarrow>
             \<lparr>result = Inl (rethrow JStage e), effects = trace, after = st\<rparr>
         | Fetched response \<Rightarrow>
             if \<not> ok response then
               \<lparr>result = Inl (rethrow JStage
                   (RequestFailed JStage (status response) (statusText response))),
                effects = trace, after = st\<rparr>
             else
               let st1 = st\<lparr>lastJstageCall := now2\<rparr>
               in (case body response of
                     Inl e \<Rightarrow>
                       \<lparr>result = Inl (rethrow JStage e), effects = trace, after = st1\<rparr>
                   | Inr xmlText \<Rightarrow>
                       let parsed = parseJstageXML xmlText;
                           totalHits = extractTotalHits xmlText;
                           st2 = st1\<lparr>collectedJstageUrls :=
                                      collectJstage rt ids 0 parsed (collectedJstageUrls st1)\<rparr>
                       in \<lparr>result = Inr \<lparr>papers = map simplifyJstage parsed,
                                           totalResults = totalHits\<rparr>,
                           effects = trace, after = st2\<rparr>))"

section \<open>CORE\<close>

text \<open>
  An author of the payload is an object with a name or a string;
  \<^verbatim>\<open>author.name || author\<close> keeps an object whose name is falsy as it is.
\<close>

datatype core_author = AuthorObject "string field" | AuthorString string

fun coreAuthor :: "core_author \<Rightarrow> core_author" where
  "coreAuthor (AuthorObject (Present n)) =
     (if n = [] then AuthorObject (Present n) else AuthorString n)"
| "coreAuthor (AuthorObject f) = AuthorObject f"
| "coreAuthor (AuthorString s) = AuthorString s"

record CoreRaw =
  cr_id :: "string field"
  cr_title :: "string field"
  cr_authors :: "core_author list field"
  cr_abstract :: "string field"
  cr_year :: "int field"
  cr_language :: "string field"
  cr_repository :: "string field field"
  cr_doi :: "string field"
  cr_downloadUrl :: "string field"
  cr_subjects :: "string list field"
  cr_type :: "string field"

record CoreResponse =
  cd_results :: "CoreRaw list field"
  cd_totalHits :: "int field"

record ProcessedCorePaper =
  pc_coreId :: string
  pc_title :: string
  pc_authors :: "core_author list"
  pc_abstract :: string
  pc_year :: int
  pc_language :: string
  pc_repository :: string
  pc_doi :: "string option"
  pc_downloadUrl :: "string option"
  pc_subjects :: "string list"
  pc_documentType :: string

record CorePaper =
  co_coreId :: string
  co_title :: string
  co_authors :: "core_author list"
  co_abstract :: "string option"
  co_year :: int
  co_repository :: string
  co_doi :: "string option"

record CoreContext =
  cx_query :: string
  cx_maxResults :: int
  cx_yearFrom :: "int option"
  cx_yearTo :: "int option"
  cx_repositoryFilter :: "string list option"
  cx_languageFilter :: "string list option"
  cx_documentType :: string

text \<open>\<^verbatim>\<open>result.repository?.name || 'Unknown'\<close>\<close>

fun repositoryName :: "string field field \<Rightarrow> string" where
  "repositoryName (Present n) = or_str n ''Unknown''"
| "repositoryName f = ''Unknown''"

definition processCore :: "runtime \<Rightarrow> CoreRaw \<Rightarrow> ProcessedCorePaper" where
  "processCore rt r =
     \<lparr>pc_coreId = or_str (cr_id r) [],
      pc_title = or_str (cr_title r) [],
      pc_authors = (case cr_authors r of Present as \<Rightarrow> map coreAuthor as | _ \<Rightarrow> []),
      pc_abstract = or_str (cr_abstract r) [],
      pc_year = or_int (cr_year r) (getFullYear rt),
      pc_language = or_str (cr_language r) ''en'',
      pc_repository = repositoryName (cr_repository r),
      pc_doi = or_none (or_str (cr_doi r) []),
      pc_downloadUrl = or_none (or_str (cr_downloadUrl r) []),
      pc_subjects = or_list (cr_subjects r) [],
      pc_documentType = or_str (cr_type r) ''article''\<rparr>"

definition outputCore :: "ProcessedCorePaper \<Rightarrow> CorePaper" where
  "outputCore paper =
     \<lparr>co_coreId = pc_coreId paper, co_title = pc_title paper,
      co_authors = take 3 (pc_authors paper), co_abstract = or_none (pc_abstract paper),
      co_year = pc_year paper, co_repository = pc_repository paper, co_doi = pc_doi paper\<rparr>"

fun join :: "string \<Rightarrow> string list \<Rightarrow> string" where
  "join sep [] = []"
| "join sep [x] = x"
| "join sep (x # y # ys) = x @ sep @ join sep (y # ys)"

text \<open>A number filter is appended when it is truthy, that is, given and not 0.\<close>

fun yearParam :: "string \<Rightarrow> int option \<Rightarrow> (string \<times> pval) list" where
  "yearParam name None = []"
| "yearParam name (Some y) = (if y = 0 then [] else [(name, Num y)])"

definition coreRequest :: "runtime \<Rightarrow> CoreContext \<Rightarrow> effect" where
  "coreRequest rt context =
     Fetch ''https://api.core.ac.uk/v3/search/works''
       ([(''q'', Str (cx_query context)), (''limit'', Num (cx_maxResults context))]
        @ yearParam ''year_from'' (cx_yearFrom context)
        @ yearParam ''year_to'' (cx_yearTo context)
        @ (case cx_languageFilter context of
             Some ls \<Rightarrow> (if length ls > 0 then [(''language'', Str (join '','' ls))] else [])
           | None \<Rightarrow> [])
        @ (if cx_documentType context \<noteq> ''all''
           then [(''type'', Str (cx_documentType context))] else []))
       [(''Authorization'',
         ''Bearer '' @ (case CORE_API_KEY rt of Some k \<Rightarrow> k | None \<Rightarrow> [])),
        (''Content-Type'', ''application/json'')]"

text \<open>
  The \<^verbatim>\<open>try\<close> block of \<^verbatim>\<open>coreSearchTool.execute\<close>. The two distributions it counts
  are used nowhere and are left out.
\<close>

definition coreTry :: "runtime \<Rightarrow> CoreResponse fetched \<Rightarrow> error + CorePaper papers_total" where
  "coreTry rt resp =
     (case resp of
        FetchThrows e \<Rightarrow> Inl e
      | Fetched response \<Rightarrow>
          if \<not> ok response then Inl (CoreApiError (status response))
          else (case body response of
                  Inl e \<Rightarrow> Inl e
                | Inr json \<Rightarrow>
                    let processed = map (processCore rt) (or_list (cd_results json) [])
                    in Inr \<lparr>papers = map outputCore processed,
                            totalResults = or_int (cd_totalHits json) (int (length processed))\<rparr>))"

text \<open>\<^verbatim>\<open>coreSearchTool.execute\<close>: the \<^verbatim>\<open>catch\<close> returns the empty result.\<close>

definition coreSearchTool ::
  "runtime \<Rightarrow> tool_state \<Rightarrow> CoreContext \<Rightarrow> CoreResponse fetched \<Rightarrow> CorePaper papers_total run" where
  "coreSearchTool rt st context resp =
     \<lparr>result = (case coreTry rt resp of
                  Inl e \<Rightarrow> Inr \<lparr>papers = [], totalResults = 0\<rparr>
                | Inr out \<Rightarrow> Inr out),
      effects = [coreRequest rt context], after = st\<rparr>"

section \<open>The conference search\<close>

record ConferencePaper =
  cp_title :: string
  cp_authors :: string
  cp_conference :: string
  cp_year :: string
  cp_abstract :: string
  cp_url :: string

text \<open>
  The response of \<^verbatim>\<open>generateContent\<close>: its text, and for each grounding chunk
  \<^verbatim>\<open>chunk.web?.uri\<close> (\<open>None\<close> when
  \<^verbatim>\<open>candidates?.[0]?.groundingMetadata?.groundingChunks\<close> is falsy).
\<close>

record GenResponse =
  g_text :: "string field"
  g_groundingChunks :: "string field list option"

datatype generated = GenerateThrows error | Generated GenResponse

text \<open>
  The string \<^verbatim>\<open>content\<close>, as the template it is built from: the text of the report with
  the unique cited sources listed behind it (none when there is no citation), the apology
  of \<^verbatim>\<open>searchTopConferences\<close> with the message of the error (for a value that is no
  \<^verbatim>\<open>Error\<close>, the string \<^verbatim>\<open>String\<close> makes of it), and the message of the \<^verbatim>\<open>catch\<close> of
  \<^verbatim>\<open>execute\<close> with the query.
\<close>

datatype content = Report string "string list" | Apology error | ExecuteError string

record ConferenceSearch = "ConferencePaper papers_only" +
  content :: content
  citations :: "string list"

record ConferenceOutput = ConferenceSearch +
  searchId :: int
  query :: string
  success :: bool
  error :: "error option"

definition getGenAIClient :: "runtime \<Rightarrow> tool_state \<Rightarrow> error + tool_state" where
  "getGenAIClient rt st =
     (if \<not> genai st then
        let apiKey = (case GEMINI_API_KEY rt of
                        Some k \<Rightarrow> (if k = [] then GOOGLE_GENERATIVE_AI_API_KEY rt else Some k)
                      | None \<Rightarrow> GOOGLE_GENERATIVE_AI_API_KEY rt)
        in (case apiKey of
              None \<Rightarrow> Inl ApiKeyNotFound
            | Some k \<Rightarrow> (if k = [] then Inl ApiKeyNotFound else Inr (st\<lparr>genai := True\<rparr>)))
      else Inr st)"

text \<open>\<^verbatim>\<open>chunks.forEach\<close>: a chunk with a truthy \<^verbatim>\<open>web.uri\<close> is pushed.\<close>

fun pushCitations :: "string field list \<Rightarrow> string list \<Rightarrow> string list" where
  "pushCitations [] pushed = pushed"
| "pushCitations (Present uri # chunks) pushed =
     pushCitations chunks (if uri = [] then pushed else pushed @ [uri])"
| "pushCitations (chunk # chunks) pushed = pushCitations chunks pushed"

text \<open>\<^verbatim>\<open>/\d{4}/\<close>\<close>

definition yearRegex :: "tok list" where
  "yearRegex = [Ch Digit, Ch Digit, Ch Digit, Ch Digit]"

definition trimmedOrEmpty :: "string option \<Rightarrow> string" where
  "trimmedOrEmpty m = (case m of Some g \<Rightarrow> trim g | None \<Rightarrow> [])"

text \<open>\<^verbatim>\<open>/#### \d+\.\s*(.+)/\<close> and \<^verbatim>\<open>/\*\*URL\*\*:\s*(.+)/\<close>\<close>

definition titleRegex :: "tok list" where
  "titleRegex =
     [Lit ''#### '', Rep False Greedy1 Digit, Lit ''.'', Rep False Greedy0 Space,
      Rep True Greedy1 Dot]"

definition urlRegex :: "tok list" where
  "urlRegex = [Lit ''**URL**:'', Rep False Greedy0 Space, Rep True Greedy1 Dot]"

definition firstCapture :: "tok list \<Rightarrow> string \<Rightarrow> string option" where
  "firstCapture re s = (case rsearch re s of Some (w, g, r) \<Rightarrow> Some g | None \<Rightarrow> None)"

text \<open>
  \<^verbatim>\<open>paperMatches.slice(0, 10).forEach\<close>: a section is pushed when the title
  expression matches in it.
\<close>

fun pushPapers :: "SectionMatch list \<Rightarrow> ConferencePaper list \<Rightarrow> ConferencePaper list" where
  "pushPapers [] pushed = pushed"
| "pushPapers (m # ms) pushed =
     (case firstCapture titleRegex (matched m) of
        Some t \<Rightarrow>
          pushPapers ms
            (pushed @
             [\<lparr>cp_title = trim t,
               cp_authors = trimmedOrEmpty (authorsMatch m),
               cp_conference = trimmedOrEmpty (conferenceMatch m),
               cp_year = (case conferenceMatch m of
                            Some c \<Rightarrow> (case rsearch yearRegex c of
                                         Some (w, g, r) \<Rightarrow> w | None \<Rightarrow> [])
                          | None \<Rightarrow> []),
               cp_abstract = trimmedOrEmpty (abstractMatch m),
               cp_url = trimmedOrEmpty (firstCapture urlRegex (matched m))\<rparr>])
      | None \<Rightarrow> pushPapers ms pushed)"

text \<open>\<^verbatim>\<open>Array.from(new Set(citations))\<close>: the first occurrence of each, in order.\<close>

fun uniqueSources :: "string list \<Rightarrow> string list \<Rightarrow> string list" where
  "uniqueSources [] seen = seen"
| "uniqueSources (c # cs) seen = uniqueSources cs (if c \<in> set seen then seen else seen @ [c])"

text \<open>The \<^verbatim>\<open>try\<close> block of \<^verbatim>\<open>searchTopConferences\<close>.\<close>

definition conferenceTry ::
  "runtime \<Rightarrow> tool_state \<Rightarrow> string \<Rightarrow> generated
     \<Rightarrow> (error + ConferenceSearch) \<times> effect list \<times> tool_state" where
  "conferenceTry rt st q gen =
     (case getGenAIClient rt st of
        Inl e \<Rightarrow> (Inl e, [], st)
      | Inr st1 \<Rightarrow>
          (case gen of
             GenerateThrows e \<Rightarrow> (Inl e, [GenerateContent q], st1)
           | Generated response \<Rightarrow>
               let text = or_str (g_text response) [];
                   cited = (case g_groundingChunks response of
                              Some chunks \<Rightarrow> pushCitations chunks []
                            | None \<Rightarrow> []);
                   found = (case paperMatches rt text of
                              Some ms \<Rightarrow> pushPapers (take 10 ms) []
                            | None \<Rightarrow> [])
               in (Inr \<lparr>papers = found,
                        content = Report text
                          (if length cited > 0 then uniqueSources cited [] else []),
                        citations = cited\<rparr>,
                   [GenerateContent q], st1)))"

text \<open>
  \<^verbatim>\<open>const errorMessage = error instanceof Error ? error.message : String(error)\<close> in the
  \<^verbatim>\<open>catch\<close> block of \<^verbatim>\<open>searchTopConferences\<close>: \<open>Inr e\<close> stands for the message of the error
  \<open>e\<close>, or the string of the value \<open>e\<close>; \<open>Inl\<close> is what the conversion throws.
\<close>

fun errorMessage :: "error \<Rightarrow> error + error" where
  "errorMessage Inconvertible = Inl ConversionError"
| "errorMessage e = Inr e"

text \<open>
  \<^verbatim>\<open>searchTopConferences\<close>: its \<^verbatim>\<open>catch\<close> returns the apology, unless the thrown value cannot
  be converted; then the \<^verbatim>\<open>TypeError\<close> of the conversion leaves the \<^verbatim>\<open>catch\<close> block and the
  function throws it.
\<close>

definition searchTopConferences ::
  "runtime \<Rightarrow> tool_state \<Rightarrow> string \<Rightarrow> generated \<Rightarrow> ConferenceSearch run" where
  "searchTopConferences rt st q gen =
     (case conferenceTry rt st q gen of
        (Inl e, trace, st1) \<Rightarrow>
          (case errorMessage e of
             Inl thrown \<Rightarrow> \<lparr>result = Inl thrown, effects = trace, after = st1\<rparr>
           | Inr message \<Rightarrow>
               \<lparr>result = Inr \<lparr>papers = [], content = Apology message, citations = []\<rparr>,
                effects = trace, after = st1\<rparr>)
      | (Inr found, trace, st1) \<Rightarrow> \<lparr>result = Inr found, effects = trace, after = st1\<rparr>)"

text \<open>
  \<^verbatim>\<open>googleGroundingSearchTool.execute\<close>: the \<^verbatim>\<open>try\<close> around the call of
  \<^verbatim>\<open>searchTopConferences\<close>, and the \<^verbatim>\<open>catch\<close> for what that call throws; \<open>Some e\<close> in the
  field \<open>error\<close> stands for \<^verbatim>\<open>error.message\<close> of the error \<open>e\<close>.
\<close>

definition googleGroundingSearchTool ::
  "runtime \<Rightarrow> tool_state \<Rightarrow> string \<Rightarrow> int \<Rightarrow> generated \<Rightarrow> ConferenceOutput run" where
  "googleGroundingSearchTool rt st q sid gen =
     (let searched = searchTopConferences rt st q gen
      in \<lparr>result =
            (case result searched of
               Inr found \<Rightarrow>
                 Inr \<lparr>papers = papers found, content = content found,
                      citations = citations found, searchId = sid, query = q,
                      success = True, error = None\<rparr>
             | Inl e \<Rightarrow>
                 Inr \<lparr>papers = [], content = ExecuteError q, citations = [],
                      searchId = sid, query = q, success = False, error = Some e\<rparr>),
          effects = effects searched, after = after searched\<rparr>)"

section \<open>Failures and example inputs\<close>

text \<open>
  The upstream failures of a call: the \<^verbatim>\<open>fetch\<close> rejects, the response is not ok, or
  reading its body rejects.
\<close>

definition upstreamFailure :: "'b fetched \<Rightarrow> bool" where
  "upstreamFailure resp =
     (case resp of FetchThrows e \<Rightarrow> True | Fetched r \<Rightarrow> \<not> ok r \<or> isl (body r))"

text \<open>
  A report of two sections, the second with nothing behind its number, and the sections
  of it.
\<close>

definition example_report :: string where
  \<open>example_report =
     ''#### 1. Scaling Laws'' @ [CHR 0x0A] @
     ''- **URL**: https://example.org/scaling'' @ [CHR 0x0A] @
     ''#### 2.'' @ [CHR 0x0A]\<close>

definition example_sections :: "SectionMatch list" where
  \<open>example_sections =
     [\<lparr>matched = ''#### 1. Scaling Laws'' @ [CHR 0x0A] @
                  ''- **URL**: https://example.org/scaling'' @ [CHR 0x0A],
       authorsMatch = None, conferenceMatch = None, abstractMatch = None\<rparr>,
      \<lparr>matched = ''#### 2.'' @ [CHR 0x0A],
       authorsMatch = None, conferenceMatch = None, abstractMatch = None\<rparr>]\<close>

text \<open>
  A runtime for the examples. Its \<^verbatim>\<open>encodeURIComponent\<close> escapes the space and nothing
  else, which is right on the letters and spaces that the examples encode; the report it
  has the sections of is the example report.
\<close>

definition example_runtime :: runtime where
  "example_runtime =
     \<lparr>toISOString = (\<lambda>s. if s = ''2023-01-30T18:00:00Z''
                          then Some ''2023-01-30T18:00:00.000Z'' else None),
      encodeURIComponent = (\<lambda>s. concat (map (\<lambda>c. if c = CHR '' '' then ''%20'' else [c]) s)),
      getFullYear = 2025, CORE_API_KEY = None,
      GEMINI_API_KEY = Some ''key'', GOOGLE_GENERATIVE_AI_API_KEY = None,
      paperMatches = (\<lambda>t. if t = example_report then Some example_sections else None)\<rparr>"

text \<open>
  An Atom feed of three entries: one with an abstract-page link, one without a title,
  one without any link.
\<close>

definition example_feed :: string where
  \<open>example_feed =
     ''<feed><entry><id>http://arxiv.org/abs/2301.12345v1</id><title>Deep Nets</title>'' @
     ''<summary>We study nets.</summary><published>2023-01-30T18:00:00Z</published>'' @
     ''<link href="https://arxiv.org/abs/2301.12345" rel="alternate" type="text/html"/>'' @
     ''</entry><entry><id>http://arxiv.org/abs/2301.99999v1</id>'' @
     ''<summary>No title here.</summary></entry>'' @
     ''<entry><id>http://arxiv.org/abs/2302.00001v2</id><title>No Link</title></entry></feed>''\<close>

definition example_arxiv_call :: "ArxivPaper papers_only run" where
  "example_arxiv_call =
     searchArxiv example_runtime initial_state ''nets'' 5 ''relevance'' 100000
       (Fetched (Response 200 ''OK'' (Inr example_feed)))"

text \<open>
  Two papers of a Semantic Scholar payload: one with no property at all, one with an id
  and a title.
\<close>

definition example_s2_blank :: S2Raw where
  "example_s2_blank =
     \<lparr>r_paperId = Undefined, r_title = Undefined, r_abstract = Undefined,
      r_authors = Undefined, r_year = Undefined, r_citationCount = Undefined,
      r_venue = Undefined, r_publicationTypes = Undefined, r_url = Undefined,
      r_openAccessPdf = Undefined, r_fieldsOfStudy = Undefined\<rparr>"

definition example_s2_paper :: S2Raw where
  "example_s2_paper =
     example_s2_blank\<lparr>r_paperId := Present ''649def34'', r_title := Present ''Attention'',
                       r_year := Present 2017, r_citationCount := Present 90000\<rparr>"

definition example_s2_call :: "S2Paper papers_only run" where
  "example_s2_call =
     searchSemanticScholar initial_state ''attention'' 80 100000 100250
       (Fetched (Response 200 ''OK''
          (Inr \<lparr>d_data = Present [example_s2_blank, example_s2_paper], d_total = Present 2\<rparr>)))"

text \<open>An RSS feed of two items, the second without a title.\<close>

definition example_rss :: string where
  \<open>example_rss =
     ''<rss><opensearch:totalResults>2</opensearch:totalResults>'' @
     ''<item><title><![CDATA[Robot Arms]]></title><dc:creator>Sato</dc:creator>'' @
     ''<prism:doi>10.1/ra</prism:doi></item>'' @
     ''<item><description>untitled</description></item></rss>''\<close>

definition example_jstage_call :: "JstageSimplified papers_total run" where
  "example_jstage_call =
     searchJstage example_runtime initial_state ''robot'' 500 None None None 100000 100300
       (\<lambda>i. ''jstage-100300-0.5'') (Fetched (Response 200 ''OK'' (Inr example_rss)))"

text \<open>A work of a CORE payload with no id and no title, and the arguments of a call.\<close>

definition example_core_blank :: CoreRaw where
  "example_core_blank =
     \<lparr>cr_id = Undefined, cr_title = Undefined, cr_authors = Undefined,
      cr_abstract = Undefined, cr_year = Undefined, cr_language = Undefined,
      cr_repository = Undefined, cr_doi = Undefined, cr_downloadUrl = Undefined,
      cr_subjects = Undefined, cr_type = Undefined\<rparr>"

definition example_core_context :: CoreContext where
  "example_core_context =
     \<lparr>cx_query = ''graphs'', cx_maxResults = 500, cx_yearFrom = None, cx_yearTo = None,
      cx_repositoryFilter = None, cx_languageFilter = None, cx_documentType = ''all''\<rparr>"

definition example_core_call :: "CorePaper papers_total run" where
  "example_core_call =
     coreSearchTool example_runtime initial_state example_core_context
       (Fetched (Response 200 ''OK''
          (Inr \<lparr>cd_results = Present [example_core_blank], cd_totalHits = Present 1\<rparr>)))"

text \<open>A response that is not ok.\<close>

definition example_unavailable :: "'b fetched" where
  "example_unavailable =
     Fetched (Response 503 ''Service Unavailable'' (Inl (RuntimeError ''terminated'')))"

section \<open>Properties of the regular expressions\<close>

lemma startsWithI_length: "startsWithI s p \<Longrightarrow> length p \<le> length s"
  by (induction s p rule: startsWithI.induct) simp_all

lemma rmatch_rest: "rmatch ts s = Some (g, r) \<Longrightarrow> length r \<le> length s"
proof (induction ts s arbitrary: g r rule: rmatch.induct)
  case (2 p ts s)
  then show ?case by (fastforce split: if_splits)
next
  case (3 p ts s)
  then show ?case by (fastforce split: if_splits)
next
  case (5 c ts x xs)
  then show ?case by (fastforce split: if_splits)
next
  case (8 k c ts x xs)
  then show ?case by (fastforce split: if_splits option.splits)
next
  case (10 k c ts x xs)
  then show ?case by (fastforce split: if_splits option.splits)
next
  case (12 k c ts x xs)
  then show ?case by (fastforce split: if_splits option.splits)
qed (auto split: if_splits option.splits)

lemma rmatch_consumes:
  assumes "rmatch (t # ts) s = Some (g, r)" and "consumes t"
  shows "length r < length s"
proof (cases t)
  case (Lit p)
  with assms obtain c p' where p: "p = c # p'" by (cases p) auto
  from assms Lit have "prefix p s" "rmatch ts (drop (length p) s) = Some (g, r)"
    by (auto split: if_splits)
  with rmatch_rest [of ts "drop (length p) s" g r] p show ?thesis
    by (cases s) auto
next
  case (LitI p)
  with assms obtain c p' where p: "p = c # p'" by (cases p) auto
  from assms LitI have "startsWithI s p" "rmatch ts (drop (length p) s) = Some (g, r)"
    by (auto split: if_splits)
  with rmatch_rest [of ts "drop (length p) s" g r] p show ?thesis
    by (cases s) auto
next
  case (Ch c)
  with assms show ?thesis
    by (cases s) (auto split: if_splits dest: rmatch_rest)
next
  case (Rep k q c)
  with assms have q: "q = Greedy1" by simp
  from assms Rep q show ?thesis
    by (cases s) (auto split: if_splits option.splits dest: rmatch_rest)
next
  case End
  with assms show ?thesis by simp
qed

lemma rsearch_consumes:
  "rsearch (t # ts) s = Some (w, g, r) \<Longrightarrow> consumes t \<Longrightarrow> length r < length s"
proof (induction s)
  case Nil
  then show ?case by (auto split: option.splits dest: rmatch_consumes)
next
  case (Cons x xs)
  then show ?case by (fastforce split: option.splits dest: rmatch_consumes)
qed

text \<open>
  So the search for every match of such an expression always resumes behind the match, as
  the \<^verbatim>\<open>exec\<close> loop does.
\<close>

lemma rall_consumes:
  assumes "consumes t"
  shows "rall (t # ts) s =
           (case rsearch (t # ts) s of
              None \<Rightarrow> []
            | Some (w, g, r) \<Rightarrow> (w, g) # rall (t # ts) r)"
proof (cases "rsearch (t # ts) s")
  case None
  then show ?thesis by (simp add: rall.simps)
next
  case (Some m)
  obtain w g r where m: "m = (w, g, r)" by (cases m)
  from rsearch_consumes [OF Some [unfolded m] assms] Some m show ?thesis
    by (subst rall.simps) simp
qed

lemma regexes_consume:
  "list_all (\<lambda>re. consumes (hd re))
     [entryRegex, tagRegex tag, markupRegex, spacesRegex, linkRegex, abstractLinkRegex,
      categoryRegex, arxivIdRegex, xmlTagRegex tag, cdataRegex, blockRegex tag,
      leafRegex tag, totalResultsRegex, yearRegex, titleRegex, urlRegex]"
  by (simp add: entryRegex_def tagRegex_def markupRegex_def spacesRegex_def linkRegex_def
        abstractLinkRegex_def categoryRegex_def arxivIdRegex_def xmlTagRegex_def
        cdataRegex_def blockRegex_def leafRegex_def totalResultsRegex_def yearRegex_def
        titleRegex_def urlRegex_def)

section \<open>Properties of the arXiv tool\<close>

lemma parseEntries_pushed:
  "parseEntries rt es pushed = pushed @ List.map_filter (parseEntry rt) es"
  by (induction es arbitrary: pushed) (simp_all split: option.splits)

lemma parseArxivXML_map_filter:
  "parseArxivXML rt xml = List.map_filter (parseEntry rt) (map snd (rall entryRegex xml))"
  by (simp add: parseArxivXML_def parseEntries_pushed)

lemma parseEntry_None_iff:
  "(parseEntry rt e = None) = (extractText e ''id'' = [] \<or> extractText e ''title'' = [])"
  by (simp add: parseEntry_def Let_def)

lemma foldl_collectArxiv:
  "foldl collectArxiv collected ps =
     collected @ map (\<lambda>p. \<lparr>c_id = e_id p, c_title = e_title p, c_url = e_link p,
                             c_source = ''arXiv''\<rparr>) ps"
  by (induction ps arbitrary: collected) (simp_all add: collectArxiv_def)

lemma rethrow_not_cooldown [simp]: "rethrow src e \<noteq> CooldownActive w"
  by (cases e) simp_all

lemma searchArxiv_cooldown:
  "now - lastArxivCall st < ARXIV_COOLDOWN_MS \<Longrightarrow>
   searchArxiv rt st q n sb now resp =
     \<lparr>result = Inl (CooldownActive (- (- (ARXIV_COOLDOWN_MS - (now - lastArxivCall st)) div 1000))),
      effects = [], after = st\<rparr>"
  by (simp add: searchArxiv_def Let_def)

lemma searchArxiv_success:
  "ARXIV_COOLDOWN_MS \<le> now - lastArxivCall st \<Longrightarrow> ok r \<Longrightarrow> body r = Inr xml \<Longrightarrow>
   searchArxiv rt st q n sb now (Fetched r) =
     \<lparr>result = Inr \<lparr>papers = map simplifyArxiv (parseArxivXML rt xml)\<rparr>,
      effects = [arxivRequest q n sb],
      after = st\<lparr>lastArxivCall := now,
                 collectedArxivUrls :=
                   foldl collectArxiv (collectedArxivUrls st) (parseArxivXML rt xml)\<rparr>\<rparr>"
  by (simp add: searchArxiv_def Let_def)

lemma searchArxiv_Inr:
  assumes "result (searchArxiv rt st q n sb now resp) = Inr out"
  shows "\<exists>r xml. resp = Fetched r \<and> ok r \<and> body r = Inr xml \<and>
           ARXIV_COOLDOWN_MS \<le> now - lastArxivCall st"
  using assms
  by (auto simp: searchArxiv_def Let_def split: if_splits fetched.splits sum.splits)

lemma includes_str_iff: "includes_str s p = (\<exists>pre post. s = pre @ p @ post)"
proof (induction s)
  case Nil
  then show ?case by auto
next
  case (Cons x xs)
  show ?case
  proof
    assume "includes_str (x # xs) p"
    then consider "prefix p (x # xs)" | "includes_str xs p" by auto
    then show "\<exists>pre post. x # xs = pre @ p @ post"
    proof cases
      case 1
      then obtain post where "x # xs = p @ post" by (auto simp: prefix_def)
      then have "x # xs = [] @ p @ post" by simp
      then show ?thesis by blast
    next
      case 2
      with Cons.IH obtain pre post where "xs = pre @ p @ post" by blast
      then have "x # xs = (x # pre) @ p @ post" by simp
      then show ?thesis by blast
    qed
  next
    assume "\<exists>pre post. x # xs = pre @ p @ post"
    then obtain pre post where e: "x # xs = pre @ p @ post" by blast
    show "includes_str (x # xs) p"
    proof (cases pre)
      case Nil
      with e have "prefix p (x # xs)" by (simp add: prefix_def)
      then show ?thesis by simp
    next
      case (Cons a pre')
      with e have "xs = pre' @ p @ post" by simp
      with Cons.IH have "includes_str xs p" by blast
      then show ?thesis by simp
    qed
  qed
qed

lemma prefix_shorter:
  assumes "prefix p (xs @ ys)" and "length p \<le> length xs"
  shows "prefix p xs"
proof -
  from assms(1) obtain zs where z: "xs @ ys = p @ zs" by (auto simp: prefix_def)
  then have "take (length p) (xs @ ys) = p" by simp
  with assms(2) have "take (length p) xs = p" by simp
  then show ?thesis by (metis take_is_prefix)
qed

text \<open>
  \<^verbatim>\<open>s.replace(p, r)\<close> with a string \<open>p\<close> rewrites the first occurrence of \<open>p\<close>: the one
  in front of which, its own last character left out, \<open>p\<close> does not occur.
\<close>

lemma replaceFirst_first:
  assumes "\<not> includes_str (pre @ butlast p) p" and "p \<noteq> []"
  shows "replaceFirst (pre @ p @ post) p r = pre @ r @ post"
  using assms(1)
proof (induction pre)
  case Nil
  from assms(2) obtain c p' where p: "p = c # p'" by (cases p) auto
  then have "replaceFirst ((c # p') @ post) (c # p') r = r @ post" by simp
  with p show ?case by simp
next
  case (Cons a pre)
  from Cons.prems have no: "\<not> prefix p (a # pre @ butlast p)"
    and rest: "\<not> includes_str (pre @ butlast p) p"
    by simp_all
  have "\<not> prefix p (a # pre @ p @ post)"
  proof
    assume pr: "prefix p (a # pre @ p @ post)"
    have "a # pre @ p @ post = (a # pre @ butlast p) @ (last p # post)"
      using assms(2) by simp
    with pr have "prefix p ((a # pre @ butlast p) @ (last p # post))" by simp
    moreover have "length p \<le> length (a # pre @ butlast p)" using assms(2) by simp
    ultimately have "prefix p (a # pre @ butlast p)" by (rule prefix_shorter)
    with no show False ..
  qed
  with Cons.IH [OF rest] show ?case by simp
qed

lemma first_occurrence:
  assumes "includes_str s p" and p: "p \<noteq> []"
  shows "\<exists>pre post. s = pre @ p @ post \<and> \<not> includes_str (pre @ butlast p) p"
  using assms(1)
proof (induction s)
  case Nil
  with p show ?case by simp
next
  case (Cons x xs)
  show ?case
  proof (cases "prefix p (x # xs)")
    case True
    then obtain post where e: "x # xs = [] @ p @ post" by (auto simp: prefix_def)
    have "\<not> includes_str ([] @ butlast p) p"
    proof
      assume "includes_str ([] @ butlast p) p"
      then obtain a b where "butlast p = a @ p @ b" by (auto simp: includes_str_iff)
      then have "length (butlast p) = length (a @ p @ b)" by simp
      then have "length p - 1 = length a + length p + length b" by simp
      moreover from p have "0 < length p" by simp
      ultimately show False by arith
    qed
    with e show ?thesis by blast
  next
    case False
    with Cons.prems have "includes_str xs p" by simp
    with Cons.IH obtain pre post where
      e: "xs = pre @ p @ post" and n: "\<not> includes_str (pre @ butlast p) p"
      by blast
    have "\<not> prefix p (x # pre @ butlast p)"
    proof
      assume "prefix p (x # pre @ butlast p)"
      then have "prefix p ((x # pre @ butlast p) @ (last p # post))"
        by (rule prefix_prefix)
      moreover from p have "(x # pre @ butlast p) @ (last p # post) = x # pre @ p @ post"
        by simp
      ultimately have "prefix p (x # pre @ p @ post)" by (simp only:)
      with e have "prefix p (x # xs)" by simp
      with False show False ..
    qed
    with n have "\<not> includes_str ((x # pre) @ butlast p) p" by simp
    moreover from e have "x # xs = (x # pre) @ p @ post" by simp
    ultimately show ?thesis by blast
  qed
qed

lemma endsWith_iff: "endsWith s p = (\<exists>pre. s = pre @ p)"
  by (simp add: endsWith_def suffix_to_prefix [symmetric] suffix_def)

lemma toPdfLink_abs:
  assumes "\<not> includes_str (pre @ ''/abs'') ''/abs/''"
  shows "toPdfLink (pre @ ''/abs/'' @ post) =
           (if endsWith (pre @ ''/pdf/'' @ post) ''.pdf'' then pre @ ''/pdf/'' @ post
            else pre @ ''/pdf/'' @ post @ ''.pdf'')"
proof -
  have inc: "includes_str (pre @ ''/abs/'' @ post) ''/abs/''"
    unfolding includes_str_iff by blast
  have "\<not> includes_str (pre @ butlast ''/abs/'') ''/abs/''"
    using assms by simp
  then have rep: "replaceFirst (pre @ ''/abs/'' @ post) ''/abs/'' ''/pdf/'' = pre @ ''/pdf/'' @ post"
    by (rule replaceFirst_first) simp
  show ?thesis
    unfolding toPdfLink_def Let_def using inc rep by simp
qed

lemma toPdfLink_other:
  "\<not> includes_str link ''/abs/'' \<Longrightarrow>
   toPdfLink link = (if endsWith link ''.pdf'' then link else link @ ''.pdf'')"
  by (simp add: toPdfLink_def Let_def)

lemma toPdfLink_first_abs:
  assumes "includes_str link ''/abs/''"
  shows "\<exists>pre post. link = pre @ ''/abs/'' @ post \<and> \<not> includes_str (pre @ ''/abs'') ''/abs/''"
proof -
  from first_occurrence [OF assms] obtain pre post where
    "link = pre @ ''/abs/'' @ post" and "\<not> includes_str (pre @ butlast ''/abs/'') ''/abs/''"
    by auto
  then have "link = pre @ ''/abs/'' @ post \<and> \<not> includes_str (pre @ ''/abs'') ''/abs/''"
    by simp
  then show ?thesis by blast
qed

lemma endsWith_append [simp]: "endsWith (s @ p) p"
  by (simp add: endsWith_def)

lemma toPdfLink_pdf: "endsWith (toPdfLink l) ''.pdf''"
  by (simp add: toPdfLink_def Let_def)

lemma endsWith_nonempty: "endsWith s p \<Longrightarrow> p \<noteq> [] \<Longrightarrow> s \<noteq> []"
  by (auto simp: endsWith_def)

lemma searchArxiv_effects:
  "ARXIV_COOLDOWN_MS \<le> now - lastArxivCall st \<Longrightarrow>
   effects (searchArxiv rt st q n sb now resp) = [arxivRequest q n sb]"
  by (simp add: searchArxiv_def Let_def split: fetched.splits sum.splits)

lemma searchArxiv_failure:
  assumes "upstreamFailure resp" and "ARXIV_COOLDOWN_MS \<le> now - lastArxivCall st"
  shows "\<exists>e. result (searchArxiv rt st q n sb now resp) = Inl (rethrow ArXiv e)"
proof (cases resp)
  case (FetchThrows e)
  with assms(2) have "result (searchArxiv rt st q n sb now resp) = Inl (rethrow ArXiv e)"
    by (simp add: searchArxiv_def Let_def)
  then show ?thesis ..
next
  case (Fetched r)
  show ?thesis
  proof (cases "ok r")
    case False
    with Fetched assms(2)
    have "result (searchArxiv rt st q n sb now resp) =
            Inl (rethrow ArXiv (RequestFailed ArXiv (status r) (statusText r)))"
      by (simp add: searchArxiv_def Let_def)
    then show ?thesis ..
  next
    case True
    with Fetched assms(1) obtain e where "body r = Inl e"
      by (auto simp: upstreamFailure_def isl_def)
    with True Fetched assms(2)
    have "result (searchArxiv rt st q n sb now resp) = Inl (rethrow ArXiv e)"
      by (simp add: searchArxiv_def Let_def)
    then show ?thesis ..
  qed
qed

lemma searchArxiv_no_failure:
  "\<not> upstreamFailure resp \<Longrightarrow> ARXIV_COOLDOWN_MS \<le> now - lastArxivCall st \<Longrightarrow>
   \<exists>out. result (searchArxiv rt st q n sb now resp) = Inr out"
  by (auto simp: searchArxiv_def upstreamFailure_def Let_def isl_def
           split: fetched.splits sum.splits)

lemma searchArxiv_unchanged:
  "now - lastArxivCall st < ARXIV_COOLDOWN_MS \<or> resp = FetchThrows e
     \<or> (resp = Fetched r \<and> \<not> ok r) \<Longrightarrow>
   after (searchArxiv rt st q n sb now resp) = st"
  by (auto simp: searchArxiv_def Let_def)

lemma example_arxiv_call_result:
  "example_arxiv_call =
     \<lparr>result = Inr \<lparr>papers =
        [\<lparr>ap_title = ''Deep Nets'', ap_abstract = ''We study nets.'',
          ap_published = ''2023-01-30'', pdfLink = ''https://arxiv.org/pdf/2301.12345.pdf'',
          arxivId = ''2301.12345v1''\<rparr>,
         \<lparr>ap_title = ''No Link'', ap_abstract = [], ap_published = [],
          pdfLink = ''https://arxiv.org/pdf/2302.00001v2.pdf'', arxivId = ''2302.00001v2''\<rparr>]\<rparr>,
      effects = [arxivRequest ''nets'' 5 ''relevance''],
      after = initial_state
        \<lparr>lastArxivCall := 100000,
         collectedArxivUrls :=
           [\<lparr>c_id = ''2301.12345v1'', c_title = ''Deep Nets'',
             c_url = ''https://arxiv.org/abs/2301.12345'', c_source = ''arXiv''\<rparr>,
            \<lparr>c_id = ''2302.00001v2'', c_title = ''No Link'',
             c_url = ''https://arxiv.org/abs/2302.00001v2'', c_source = ''arXiv''\<rparr>]\<rparr>\<rparr>"
  by code_simp

section \<open>Properties of the Semantic Scholar tool\<close>

lemma s2Map_fst:
  "fst (s2Map rs collected) =
     map (\<lambda>r. \<lparr>sp_title = pd_title (s2PaperData r), sp_abstract = pd_abstract (s2PaperData r),
               sp_year = pd_year (s2PaperData r),
               sp_citationCount = pd_citationCount (s2PaperData r)\<rparr>) rs"
  by (induction rs arbitrary: collected) (simp_all add: Let_def case_prod_beta)

lemma s2Map_snd:
  "snd (s2Map rs collected) =
     collected @ map (\<lambda>r. \<lparr>c_id = pd_paperId (s2PaperData r), c_title = pd_title (s2PaperData r),
                            c_url = pd_url (s2PaperData r), c_source = ''Semantic Scholar''\<rparr>) rs"
  by (induction rs arbitrary: collected) (simp_all add: Let_def case_prod_beta)

lemma searchSemanticScholar_effects:
  "effects (searchSemanticScholar st q n now now2 resp) =
     (if now - lastSemanticScholarCall st < SEMANTIC_SCHOLAR_COOLDOWN_MS
      then [Sleep (SEMANTIC_SCHOLAR_COOLDOWN_MS - (now - lastSemanticScholarCall st))] else [])
     @ [s2Request q n]"
  by (simp add: searchSemanticScholar_def Let_def split: fetched.splits sum.splits prod.splits)

lemma searchSemanticScholar_success:
  "ok r \<Longrightarrow> body r = Inr json \<Longrightarrow>
   result (searchSemanticScholar st q n now now2 (Fetched r)) =
     Inr \<lparr>papers = fst (s2Map (or_list (d_data json) []) (collectedUrls st))\<rparr>
   \<and> after (searchSemanticScholar st q n now now2 (Fetched r)) =
     st\<lparr>lastSemanticScholarCall := now2,
        collectedUrls := snd (s2Map (or_list (d_data json) []) (collectedUrls st))\<rparr>"
  by (simp add: searchSemanticScholar_def Let_def split: prod.splits)

lemma searchSemanticScholar_Inr:
  assumes "result (searchSemanticScholar st q n now now2 resp) = Inr out"
  shows "\<exists>r json. resp = Fetched r \<and> ok r \<and> body r = Inr json"
  using assms
  by (auto simp: searchSemanticScholar_def Let_def
           split: if_splits fetched.splits sum.splits prod.splits)

lemma searchSemanticScholar_failure:
  assumes "upstreamFailure resp"
  shows "\<exists>e. result (searchSemanticScholar st q n now now2 resp) = Inl (rethrow SemanticScholar e)"
proof (cases resp)
  case (FetchThrows e)
  then have "result (searchSemanticScholar st q n now now2 resp) = Inl (rethrow SemanticScholar e)"
    by (simp add: searchSemanticScholar_def Let_def)
  then show ?thesis ..
next
  case (Fetched r)
  show ?thesis
  proof (cases "ok r")
    case False
    with Fetched
    have "result (searchSemanticScholar st q n now now2 resp) =
            Inl (rethrow SemanticScholar
                (if status r = 429 then RateLimitExceeded
                 else RequestFailed SemanticScholar (status r) (statusText r)))"
      by (simp add: searchSemanticScholar_def Let_def)
    then show ?thesis ..
  next
    case True
    with Fetched assms obtain e where "body r = Inl e"
      by (auto simp: upstreamFailure_def isl_def)
    with True Fetched
    have "result (searchSemanticScholar st q n now now2 resp) = Inl (rethrow SemanticScholar e)"
      by (simp add: searchSemanticScholar_def Let_def)
    then show ?thesis ..
  qed
qed

lemma searchSemanticScholar_no_failure:
  "\<not> upstreamFailure resp \<Longrightarrow>
   \<exists>out. result (searchSemanticScholar st q n now now2 resp) = Inr out"
  by (auto simp: searchSemanticScholar_def upstreamFailure_def Let_def isl_def
           split: fetched.splits sum.splits prod.splits)

lemma searchSemanticScholar_unchanged:
  "resp = FetchThrows e \<or> (resp = Fetched r \<and> \<not> ok r) \<Longrightarrow>
   after (searchSemanticScholar st q n now now2 resp) = st"
  by (auto simp: searchSemanticScholar_def Let_def)

lemma searchSemanticScholar_result_any_time:
  "result (searchSemanticScholar st q n now now2 resp) =
     result (searchSemanticScholar st q n now' now2 resp)"
  by (simp add: searchSemanticScholar_def Let_def split: fetched.splits sum.splits prod.splits)

lemma searchSemanticScholar_not_cooldown:
  "result (searchSemanticScholar st q n now now2 resp) \<noteq> Inl (CooldownActive w)"
  by (auto simp: searchSemanticScholar_def Let_def
           split: fetched.splits sum.splits prod.splits)

lemma example_s2_call_result:
  "example_s2_call =
     \<lparr>result = Inr \<lparr>papers =
        [\<lparr>sp_title = [], sp_abstract = [], sp_year = Undefined, sp_citationCount = 0\<rparr>,
         \<lparr>sp_title = ''Attention'', sp_abstract = [], sp_year = Present 2017,
          sp_citationCount = 90000\<rparr>]\<rparr>,
      effects = [s2Request ''attention'' 80],
      after = initial_state
        \<lparr>lastSemanticScholarCall := 100250,
         collectedUrls :=
           [\<lparr>c_id = [], c_title = [],
             c_url = ''https://www.semanticscholar.org/paper/undefined'',
             c_source = ''Semantic Scholar''\<rparr>,
            \<lparr>c_id = ''649def34'', c_title = ''Attention'',
             c_url = ''https://www.semanticscholar.org/paper/649def34'',
             c_source = ''Semantic Scholar''\<rparr>]\<rparr>\<rparr>"
  by code_simp

section \<open>Properties of the J-STAGE tool\<close>

lemma parseItems_pushed: "parseItems xs pushed = pushed @ map parseItem xs"
  by (induction xs arbitrary: pushed) simp_all

lemma parseJstageXML_map: "parseJstageXML xml = map parseItem (matchedElements xml)"
  by (simp add: parseJstageXML_def parseItems_pushed)

lemma collectJstage_append:
  "\<exists>added. collectJstage rt ids i ps collected = collected @ added
           \<and> length added = length ps
           \<and> map c_title added = map j_title ps
           \<and> map c_source added = map (\<lambda>p. ''J-STAGE'') ps"
proof (induction ps arbitrary: i collected)
  case Nil
  then show ?case by simp
next
  case (Cons p ps)
  let ?e = "\<lparr>c_id = (if j_doi p \<noteq> [] then j_doi p else ids i), c_title = j_title p,
             c_url = (if j_url p \<noteq> [] then j_url p
                      else ''https://www.jstage.jst.go.jp/search/global/_search/-char/ja?item=''
                           @ encodeURIComponent rt (j_title p)),
             c_source = ''J-STAGE''\<rparr>"
  from Cons.IH [of "Suc i" "collected @ [?e]"] obtain added where
    a: "collectJstage rt ids (Suc i) ps (collected @ [?e]) = (collected @ [?e]) @ added"
       "length added = length ps" "map c_title added = map j_title ps"
       "map c_source added = map (\<lambda>p. ''J-STAGE'') ps"
    by blast
  show ?case
    by (rule exI [of _ "?e # added"]) (use a in simp)
qed

lemma searchJstage_effects:
  "effects (searchJstage rt st q n m f t now now2 ids resp) =
     (if now - lastJstageCall st < JSTAGE_COOLDOWN_MS
      then [Sleep (JSTAGE_COOLDOWN_MS - (now - lastJstageCall st))] else [])
     @ [jstageRequest q n m f t]"
  by (simp add: searchJstage_def Let_def split: fetched.splits sum.splits)

lemma searchJstage_success:
  "ok r \<Longrightarrow> body r = Inr xml \<Longrightarrow>
   result (searchJstage rt st q n m f t now now2 ids (Fetched r)) =
     Inr \<lparr>papers = map simplifyJstage (parseJstageXML xml), totalResults = extractTotalHits xml\<rparr>
   \<and> after (searchJstage rt st q n m f t now now2 ids (Fetched r)) =
     st\<lparr>lastJstageCall := now2,
        collectedJstageUrls :=
          collectJstage rt ids 0 (parseJstageXML xml) (collectedJstageUrls st)\<rparr>"
  by (simp add: searchJstage_def Let_def)

lemma searchJstage_Inr:
  assumes "result (searchJstage rt st q n m f t now now2 ids resp) = Inr out"
  shows "\<exists>r xml. resp = Fetched r \<and> ok r \<and> body r = Inr xml"
  using assms
  by (auto simp: searchJstage_def Let_def split: if_splits fetched.splits sum.splits)

lemma searchJstage_failure:
  assumes "upstreamFailure resp"
  shows "\<exists>e. result (searchJstage rt st q n m f t now now2 ids resp) = Inl (rethrow JStage e)"
proof (cases resp)
  case (FetchThrows e)
  then have "result (searchJstage rt st q n m f t now now2 ids resp) = Inl (rethrow JStage e)"
    by (simp add: searchJstage_def Let_def)
  then show ?thesis ..
next
  case (Fetched r)
  show ?thesis
  proof (cases "ok r")
    case False
    with Fetched
    have "result (searchJstage rt st q n m f t now now2 ids resp) =
            Inl (rethrow JStage
                (RequestFailed JStage (status r) (statusText r)))"
      by (simp add: searchJstage_def Let_def)
    then show ?thesis ..
  next
    case True
    with Fetched assms obtain e where "body r = Inl e"
      by (auto simp: upstreamFailure_def isl_def)
    with True Fetched
    have "result (searchJstage rt st q n m f t now now2 ids resp) = Inl (rethrow JStage e)"
      by (simp add: searchJstage_def Let_def)
    then show ?thesis ..
  qed
qed

lemma searchJstage_no_failure:
  "\<not> upstreamFailure resp \<Longrightarrow>
   \<exists>out. result (searchJstage rt st q n m f t now now2 ids resp) = Inr out"
  by (auto simp: searchJstage_def upstreamFailure_def Let_def isl_def
           split: fetched.splits sum.splits)

lemma searchJstage_unchanged:
  "resp = FetchThrows e \<or> (resp = Fetched r \<and> \<not> ok r) \<Longrightarrow>
   after (searchJstage rt st q n m f t now now2 ids resp) = st"
  by (auto simp: searchJstage_def Let_def)

lemma searchJstage_result_any_time:
  "result (searchJstage rt st q n m f t now now2 ids resp) =
     result (searchJstage rt st q n m f t now' now2 ids resp)"
  by (simp add: searchJstage_def Let_def split: fetched.splits sum.splits)

lemma searchJstage_not_cooldown:
  "result (searchJstage rt st q n m f t now now2 ids resp) \<noteq> Inl (CooldownActive w)"
  by (auto simp: searchJstage_def Let_def split: fetched.splits sum.splits)

lemma example_jstage_call_result:
  "example_jstage_call =
     \<lparr>result = Inr \<lparr>papers =
        [\<lparr>js_title = ''Robot Arms'', js_authors = [''Sato''], js_publicationDate = [],
          js_doi = Some ''10.1/ra'', js_journalTitle = None\<rparr>,
         \<lparr>js_title = ''No Title'', js_authors = [], js_publicationDate = [],
          js_doi = None, js_journalTitle = None\<rparr>],
        totalResults = 2\<rparr>,
      effects = [jstageRequest ''robot'' 500 None None None],
      after = initial_state
        \<lparr>lastJstageCall := 100300,
         collectedJstageUrls :=
           [\<lparr>c_id = ''10.1/ra'', c_title = ''Robot Arms'', c_url = ''https://doi.org/10.1/ra'',
             c_source = ''J-STAGE''\<rparr>,
            \<lparr>c_id = ''jstage-100300-0.5'', c_title = ''No Title'',
             c_url = ''https://www.jstage.jst.go.jp/search/global/_search/-char/ja?item=No%20Title'',
             c_source = ''J-STAGE''\<rparr>]\<rparr>\<rparr>"
  by code_simp

section \<open>Properties of the CORE tool and of the conference search\<close>

lemma coreSearchTool_failure:
  "upstreamFailure resp \<Longrightarrow>
   result (coreSearchTool rt st ctx resp) = Inr \<lparr>papers = [], totalResults = 0\<rparr>"
  by (auto simp: coreSearchTool_def coreTry_def upstreamFailure_def isl_def
           split: fetched.splits sum.splits)

lemma errorMessage_Inl: "errorMessage e = Inl x \<longleftrightarrow> e = Inconvertible \<and> x = ConversionError"
  by (cases e) auto

lemma errorMessage_Inr: "e \<noteq> Inconvertible \<Longrightarrow> errorMessage e = Inr e"
  by (cases e) auto

lemma conferenceTry_Inl:
  "conferenceTry rt st q gen = (Inl e, trace, st') \<longleftrightarrow>
     (getGenAIClient rt st = Inl e \<and> trace = [] \<and> st' = st)
     \<or> (getGenAIClient rt st = Inr st' \<and> gen = GenerateThrows e \<and> trace = [GenerateContent q])"
  by (auto simp: conferenceTry_def Let_def split: sum.splits generated.splits)

lemma getGenAIClient_Inl: "getGenAIClient rt st = Inl e \<Longrightarrow> e = ApiKeyNotFound"
  by (auto simp: getGenAIClient_def Let_def split: if_splits option.splits)

lemma searchTopConferences_throws:
  "result (searchTopConferences rt st q gen) = Inl x \<longleftrightarrow>
     x = ConversionError \<and> gen = GenerateThrows Inconvertible \<and> \<not> isl (getGenAIClient rt st)"
proof (cases "conferenceTry rt st q gen")
  case (fields r trace st')
  show ?thesis
  proof (cases r)
    case (Inl e)
    with fields have c: "conferenceTry rt st q gen = (Inl e, trace, st')" by simp
    then have r: "result (searchTopConferences rt st q gen) = Inl x \<longleftrightarrow>
        e = Inconvertible \<and> x = ConversionError"
      using errorMessage_Inl [of e x]
      by (cases "errorMessage e") (auto simp: searchTopConferences_def)
    from c [unfolded conferenceTry_Inl] show ?thesis
    proof
      assume "getGenAIClient rt st = Inl e \<and> trace = [] \<and> st' = st"
      with getGenAIClient_Inl [of rt st e] r show ?thesis by auto
    next
      assume "getGenAIClient rt st = Inr st' \<and> gen = GenerateThrows e \<and> trace = [GenerateContent q]"
      with r show ?thesis by auto
    qed
  next
    case (Inr found)
    with fields have c: "conferenceTry rt st q gen = (Inr found, trace, st')" by simp
    then have "result (searchTopConferences rt st q gen) = Inr found"
      by (simp add: searchTopConferences_def)
    moreover from c have "gen \<noteq> GenerateThrows Inconvertible \<or> isl (getGenAIClient rt st)"
      by (auto simp: conferenceTry_def Let_def split: sum.splits generated.splits)
    ultimately show ?thesis by auto
  qed
qed

lemma conferenceTry_failure:
  "gen = GenerateThrows e \<or> isl (getGenAIClient rt st) \<Longrightarrow>
   \<exists>e' trace st'. conferenceTry rt st q gen = (Inl e', trace, st')"
  by (auto simp: conferenceTry_def isl_def split: sum.splits)

lemma googleGroundingSearchTool_apology:
  assumes "conferenceTry rt st q gen = (Inl e, trace, st')" and "e \<noteq> Inconvertible"
  shows "result (googleGroundingSearchTool rt st q sid gen) =
           Inr \<lparr>papers = [], content = Apology e, citations = [], searchId = sid,
                query = q, success = True, error = None\<rparr>"
  using assms(1) errorMessage_Inr [OF assms(2)]
  by (simp add: googleGroundingSearchTool_def searchTopConferences_def Let_def)

lemma googleGroundingSearchTool_thrown:
  assumes "conferenceTry rt st q gen = (Inl Inconvertible, trace, st')"
  shows "result (googleGroundingSearchTool rt st q sid gen) =
           Inr \<lparr>papers = [], content = ExecuteError q, citations = [], searchId = sid,
                query = q, success = False, error = Some ConversionError\<rparr>"
  using assms
  by (simp add: googleGroundingSearchTool_def searchTopConferences_def Let_def)

lemma googleGroundingSearchTool_failure:
  assumes "gen = GenerateThrows e \<or> isl (getGenAIClient rt st)"
  shows "\<exists>out. result (googleGroundingSearchTool rt st q sid gen) = Inr out \<and> papers out = []"
proof -
  from conferenceTry_failure [OF assms] obtain e' trace st' where
    c: "conferenceTry rt st q gen = (Inl e', trace, st')"
    by blast
  show ?thesis
  proof (cases "e' = Inconvertible")
    case True
    with c googleGroundingSearchTool_thrown [of rt st q gen trace st' sid] show ?thesis by simp
  next
    case False
    with c googleGroundingSearchTool_apology [of rt st q gen e' trace st' sid] show ?thesis
      by simp
  qed
qed

lemma googleGroundingSearchTool_success:
  "\<exists>out. result (googleGroundingSearchTool rt st q sid gen) = Inr out
      \<and> success out = (\<not> isl (result (searchTopConferences rt st q gen)))
      \<and> (error out = None) = success out"
  by (cases "result (searchTopConferences rt st q gen)")
     (simp_all add: googleGroundingSearchTool_def Let_def)

lemma searchArxiv_recorded:
  "ARXIV_COOLDOWN_MS \<le> now - lastArxivCall st \<Longrightarrow> ok r \<Longrightarrow>
   lastArxivCall (after (searchArxiv rt st q n sb now (Fetched r))) = now"
  by (simp add: searchArxiv_def Let_def split: sum.splits)

lemma searchSemanticScholar_recorded:
  "ok r \<Longrightarrow>
   lastSemanticScholarCall (after (searchSemanticScholar st q n now now2 (Fetched r))) = now2"
  by (simp add: searchSemanticScholar_def Let_def split: sum.splits prod.splits)

lemma searchJstage_recorded:
  "ok r \<Longrightarrow>
   lastJstageCall (after (searchJstage rt st q n m f t now now2 ids (Fetched r))) = now2"
  by (simp add: searchJstage_def Let_def split: sum.splits)

lemma searchArxiv_effects_any:
  "effects (searchArxiv rt st q n sb now resp) =
     (if now - lastArxivCall st < ARXIV_COOLDOWN_MS then [] else [arxivRequest q n sb])"
  by (simp add: searchArxiv_def Let_def split: fetched.splits sum.splits)

lemma pushPapers_titles:
  "map cp_title (pushPapers ms pushed) =
     map cp_title pushed @
     List.map_filter (\<lambda>m. map_option trim (firstCapture titleRegex (matched m))) ms"
  by (induction ms arbitrary: pushed) (simp_all split: option.splits)

lemma googleGroundingSearchTool_collectors:
  "collectedArxivUrls (after (googleGroundingSearchTool rt st q sid gen)) = collectedArxivUrls st
   \<and> collectedUrls (after (googleGroundingSearchTool rt st q sid gen)) = collectedUrls st
   \<and> collectedJstageUrls (after (googleGroundingSearchTool rt st q sid gen)) =
       collectedJstageUrls st"
  by (auto simp: googleGroundingSearchTool_def searchTopConferences_def conferenceTry_def
        getGenAIClient_def Let_def split: sum.splits generated.splits option.splits if_splits)

lemma googleGroundingSearchTool_generated:
  assumes "\<not> isl (getGenAIClient rt st)"
  shows "\<exists>out. result (googleGroundingSearchTool rt st q sid (Generated g)) = Inr out
           \<and> papers out = (case paperMatches rt (or_str (g_text g) []) of
                              Some ms \<Rightarrow> pushPapers (take 10 ms) [] | None \<Rightarrow> [])"
  using assms
  by (auto simp: googleGroundingSearchTool_def searchTopConferences_def conferenceTry_def
        Let_def isl_def split: sum.splits)

lemma coreSearchTool_success:
  "ok r \<Longrightarrow> body r = Inr json \<Longrightarrow>
   result (coreSearchTool rt st ctx (Fetched r)) =
     Inr \<lparr>papers = map (\<lambda>x. outputCore (processCore rt x)) (or_list (cd_results json) []),
          totalResults = or_int (cd_totalHits json)
                           (int (length (or_list (cd_results json) [])))\<rparr>"
  by (simp add: coreSearchTool_def coreTry_def Let_def comp_def)

lemma example_core_call_result:
  "result example_core_call =
     Inr \<lparr>papers = [\<lparr>co_coreId = [], co_title = [], co_authors = [], co_abstract = None,
                      co_year = 2025, co_repository = ''Unknown'', co_doi = None\<rparr>],
          totalResults = 1\<rparr>"
  by code_simp

lemma example_conference_result:
  "result (googleGroundingSearchTool example_runtime initial_state ''scaling'' 1
     (Generated \<lparr>g_text = Present example_report, g_groundingChunks = None\<rparr>)) =
   Inr \<lparr>papers = [\<lparr>cp_title = ''Scaling Laws'', cp_authors = [], cp_conference = [],
                    cp_year = [], cp_abstract = [],
                    cp_url = ''https://example.org/scaling''\<rparr>],
        content = Report example_report [], citations = [], searchId = 1,
        query = ''scaling'', success = True, error = None\<rparr>"
  by code_simp

lemma arxiv_collects:
  assumes s: "result (searchArxiv rt st q n sb now ra) = Inr outa"
  shows "(\<exists>added. collectedArxivUrls (after (searchArxiv rt st q n sb now ra)) =
                 collectedArxivUrls st @ added
         \<and> map c_id added = map arxivId (papers outa)
         \<and> map c_title added = map ap_title (papers outa)
         \<and> map c_source added = map (\<lambda>p. ''arXiv'') (papers outa))
      \<and> collectedUrls (after (searchArxiv rt st q n sb now ra)) = collectedUrls st
      \<and> collectedJstageUrls (after (searchArxiv rt st q n sb now ra)) = collectedJstageUrls st"
proof -
  from searchArxiv_Inr [OF s] obtain r xml where
    r: "ra = Fetched r" "ok r" "body r = Inr xml" "ARXIV_COOLDOWN_MS \<le> now - lastArxivCall st"
    by blast
  note run = searchArxiv_success [OF r(4) r(2) r(3), of rt q n sb]
  from s have out: "papers outa = map simplifyArxiv (parseArxivXML rt xml)"
    unfolding r(1) run by auto
  let ?added = "map (\<lambda>p. \<lparr>c_id = e_id p, c_title = e_title p, c_url = e_link p,
                           c_source = ''arXiv''\<rparr>) (parseArxivXML rt xml)"
  have after: "collectedArxivUrls (after (searchArxiv rt st q n sb now ra)) =
          collectedArxivUrls st @ ?added"
    unfolding r(1) run by (simp add: foldl_collectArxiv)
  have ids: "map c_id ?added = map arxivId (papers outa)"
    and titles: "map c_title ?added = map ap_title (papers outa)"
    and sources: "map c_source ?added = map (\<lambda>p. ''arXiv'') (papers outa)"
    unfolding out by (simp_all add: simplifyArxiv_def comp_def)
  have others: "collectedUrls (after (searchArxiv rt st q n sb now ra)) = collectedUrls st"
    "collectedJstageUrls (after (searchArxiv rt st q n sb now ra)) = collectedJstageUrls st"
    unfolding r(1) run by simp_all
  from after ids titles sources others show ?thesis by blast
qed

lemma s2_collects:
  assumes s: "result (searchSemanticScholar st q n now now2 rs) = Inr outs"
  shows "(\<exists>added. collectedUrls (after (searchSemanticScholar st q n now now2 rs)) =
                 collectedUrls st @ added
         \<and> map c_title added = map sp_title (papers outs)
         \<and> map c_source added = map (\<lambda>p. ''Semantic Scholar'') (papers outs))
      \<and> collectedArxivUrls (after (searchSemanticScholar st q n now now2 rs)) =
          collectedArxivUrls st
      \<and> collectedJstageUrls (after (searchSemanticScholar st q n now now2 rs)) =
          collectedJstageUrls st"
proof -
  from searchSemanticScholar_Inr [OF s] obtain r json where
    r: "rs = Fetched r" "ok r" "body r = Inr json"
    by blast
  note run = searchSemanticScholar_success [OF r(2) r(3), of st q n now now2]
  note res = run [THEN conjunct1] and aft = run [THEN conjunct2]
  from s have out: "papers outs = fst (s2Map (or_list (d_data json) []) (collectedUrls st))"
    unfolding r(1) res by auto
  let ?added = "map (\<lambda>r. \<lparr>c_id = pd_paperId (s2PaperData r), c_title = pd_title (s2PaperData r),
                           c_url = pd_url (s2PaperData r), c_source = ''Semantic Scholar''\<rparr>)
                  (or_list (d_data json) [])"
  have after: "collectedUrls (after (searchSemanticScholar st q n now now2 rs)) =
          collectedUrls st @ ?added"
    unfolding r(1) aft by (simp add: s2Map_snd)
  have titles: "map c_title ?added = map sp_title (papers outs)"
    and sources: "map c_source ?added = map (\<lambda>p. ''Semantic Scholar'') (papers outs)"
    unfolding out s2Map_fst by (simp_all add: comp_def)
  have others: "collectedArxivUrls (after (searchSemanticScholar st q n now now2 rs)) =
          collectedArxivUrls st"
    "collectedJstageUrls (after (searchSemanticScholar st q n now now2 rs)) =
          collectedJstageUrls st"
    unfolding r(1) aft by simp_all
  from after titles sources others show ?thesis by blast
qed

lemma jstage_collects:
  assumes s: "result (searchJstage rt st q n m f t now now2 ids rj) = Inr outj"
  shows "(\<exists>added. collectedJstageUrls (after (searchJstage rt st q n m f t now now2 ids rj)) =
                 collectedJstageUrls st @ added
         \<and> map c_title added = map js_title (papers outj)
         \<and> map c_source added = map (\<lambda>p. ''J-STAGE'') (papers outj))
      \<and> collectedArxivUrls (after (searchJstage rt st q n m f t now now2 ids rj)) =
          collectedArxivUrls st
      \<and> collectedUrls (after (searchJstage rt st q n m f t now now2 ids rj)) = collectedUrls st"
proof -
  from searchJstage_Inr [OF s] obtain r xml where
    r: "rj = Fetched r" "ok r" "body r = Inr xml"
    by blast
  note run = searchJstage_success [OF r(2) r(3), of rt st q n m f t now now2 ids]
  note res = run [THEN conjunct1] and aft = run [THEN conjunct2]
  from s have out: "papers outj = map simplifyJstage (parseJstageXML xml)"
    unfolding r(1) res by auto
  from collectJstage_append [of rt ids 0 "parseJstageXML xml" "collectedJstageUrls st"]
  obtain added where
    a: "collectJstage rt ids 0 (parseJstageXML xml) (collectedJstageUrls st) =
          collectedJstageUrls st @ added"
       "map c_title added = map j_title (parseJstageXML xml)"
       "map c_source added = map (\<lambda>p. ''J-STAGE'') (parseJstageXML xml)"
    by blast
  have after: "collectedJstageUrls (after (searchJstage rt st q n m f t now now2 ids rj)) =
          collectedJstageUrls st @ added"
    unfolding r(1) aft by (simp add: a(1))
  have titles: "map c_title added = map js_title (papers outj)"
    and sources: "map c_source added = map (\<lambda>p. ''J-STAGE'') (papers outj)"
    unfolding out a(2) a(3) by (simp_all add: simplifyJstage_def comp_def)
  have others: "collectedArxivUrls (after (searchJstage rt st q n m f t now now2 ids rj)) =
          collectedArxivUrls st"
    "collectedUrls (after (searchJstage rt st q n m f t now now2 ids rj)) = collectedUrls st"
    unfolding r(1) aft by simp_all
  from after titles sources others show ?thesis by blast
qed

section \<open>The claims\<close>

text \<open>
  C1, as the claim states it, fails: a paper of a Semantic Scholar payload and a work of a
  CORE payload with neither id nor title are returned, with the empty string for both, and
  an item of a J-STAGE payload with no title is returned with the title \<^verbatim>\<open>No Title\<close>.
\<close>

theorem C1_counterexample:
  "r_paperId example_s2_blank = Undefined \<and> r_title example_s2_blank = Undefined
   \<and> result (searchSemanticScholar initial_state ''attention'' 80 100000 100250
        (Fetched (Response 200 ''OK''
           (Inr \<lparr>d_data = Present [example_s2_blank], d_total = Present 1\<rparr>)))) =
       Inr \<lparr>papers = [\<lparr>sp_title = [], sp_abstract = [], sp_year = Undefined,
                        sp_citationCount = 0\<rparr>]\<rparr>
   \<and> cr_id example_core_blank = Undefined \<and> cr_title example_core_blank = Undefined
   \<and> result (coreSearchTool example_runtime initial_state example_core_context
        (Fetched (Response 200 ''OK''
           (Inr \<lparr>cd_results = Present [example_core_blank], cd_totalHits = Present 1\<rparr>)))) =
       Inr \<lparr>papers = [\<lparr>co_coreId = [], co_title = [], co_authors = [], co_abstract = None,
                        co_year = 2025, co_repository = ''Unknown'', co_doi = None\<rparr>],
            totalResults = 1\<rparr>
   \<and> result (searchJstage example_runtime initial_state ''robot'' 10 None None None 100000
        100300 (\<lambda>i. ''jstage-100300-0.5'')
        (Fetched (Response 200 ''OK''
           (Inr ''<rss><item><description>untitled</description></item></rss>'')))) =
       Inr \<lparr>papers = [\<lparr>js_title = ''No Title'', js_authors = [], js_publicationDate = [],
                        js_doi = None, js_journalTitle = None\<rparr>],
            totalResults = 0\<rparr>"
  by code_simp

text \<open>
  C1, amended. The arXiv tool returns the entries of the payload in order, leaving out
  those whose id or title is read as the empty string, and only those. The conference
  search returns, of the first ten sections of the report, those whose title expression
  matched, in order. Semantic Scholar, CORE and J-STAGE leave out nothing: every record of
  the payload is returned, in order, a missing id or title as the empty string (Semantic
  Scholar, CORE), a missing title as \<^verbatim>\<open>No Title\<close> (J-STAGE).
\<close>

theorem C1_missing_field_policy:
  "(30000 \<le> now - lastArxivCall st \<and> ok ra \<and> body ra = Inr xml \<longrightarrow>
      result (searchArxiv rt st q n sb now (Fetched ra)) =
        Inr \<lparr>papers = map simplifyArxiv
               (List.map_filter (parseEntry rt) (map snd (rall entryRegex xml)))\<rparr>)
   \<and> (parseEntry rt e = None) = (extractText e ''id'' = [] \<or> extractText e ''title'' = [])
   \<and> (\<not> isl (getGenAIClient rt st) \<longrightarrow>
      (\<exists>out. result (googleGroundingSearchTool rt st q sid (Generated g)) = Inr out
         \<and> map cp_title (papers out) =
             List.map_filter (\<lambda>m. map_option trim (firstCapture titleRegex (matched m)))
               (take 10 (case paperMatches rt (or_str (g_text g) []) of
                           Some ms \<Rightarrow> ms | None \<Rightarrow> []))))
   \<and> (ok rs \<and> body rs = Inr json \<longrightarrow>
      (\<exists>out. result (searchSemanticScholar st q n now now2 (Fetched rs)) = Inr out
         \<and> map sp_title (papers out) = map (\<lambda>r. or_str (r_title r) []) (or_list (d_data json) [])))
   \<and> (ok rc \<and> body rc = Inr cjson \<longrightarrow>
      (\<exists>out. result (coreSearchTool rt st ctx (Fetched rc)) = Inr out
         \<and> map co_title (papers out) =
             map (\<lambda>r. or_str (cr_title r) []) (or_list (cd_results cjson) [])
         \<and> map co_coreId (papers out) =
             map (\<lambda>r. or_str (cr_id r) []) (or_list (cd_results cjson) [])))
   \<and> (ok rj \<and> body rj = Inr jxml \<longrightarrow>
      (\<exists>out. result (searchJstage rt st q n m f t now now2 ids (Fetched rj)) = Inr out
         \<and> map js_title (papers out) =
             map (\<lambda>x. if extractXmlTag x ''title'' = [] then ''No Title''
                       else extractXmlTag x ''title'') (matchedElements jxml)))"
proof (intro conjI impI)
  assume "30000 \<le> now - lastArxivCall st \<and> ok ra \<and> body ra = Inr xml"
  then show "result (searchArxiv rt st q n sb now (Fetched ra)) =
        Inr \<lparr>papers = map simplifyArxiv
               (List.map_filter (parseEntry rt) (map snd (rall entryRegex xml)))\<rparr>"
    by (simp add: searchArxiv_success parseArxivXML_map_filter ARXIV_COOLDOWN_MS_def)
next
  show "(parseEntry rt e = None) = (extractText e ''id'' = [] \<or> extractText e ''title'' = [])"
    by (rule parseEntry_None_iff)
next
  assume "\<not> isl (getGenAIClient rt st)"
  from googleGroundingSearchTool_generated [OF this, of q sid g]
  show "\<exists>out. result (googleGroundingSearchTool rt st q sid (Generated g)) = Inr out
         \<and> map cp_title (papers out) =
             List.map_filter (\<lambda>m. map_option trim (firstCapture titleRegex (matched m)))
               (take 10 (case paperMatches rt (or_str (g_text g) []) of
                           Some ms \<Rightarrow> ms | None \<Rightarrow> []))"
    by (auto simp: pushPapers_titles split: option.splits)
next
  assume "ok rs \<and> body rs = Inr json"
  then show "\<exists>out. result (searchSemanticScholar st q n now now2 (Fetched rs)) = Inr out
         \<and> map sp_title (papers out) = map (\<lambda>r. or_str (r_title r) []) (or_list (d_data json) [])"
    by (simp add: searchSemanticScholar_success s2Map_fst s2PaperData_def comp_def)
next
  assume "ok rc \<and> body rc = Inr cjson"
  then show "\<exists>out. result (coreSearchTool rt st ctx (Fetched rc)) = Inr out
         \<and> map co_title (papers out) =
             map (\<lambda>r. or_str (cr_title r) []) (or_list (cd_results cjson) [])
         \<and> map co_coreId (papers out) =
             map (\<lambda>r. or_str (cr_id r) []) (or_list (cd_results cjson) [])"
    by (simp add: coreSearchTool_success outputCore_def processCore_def comp_def)
next
  assume "ok rj \<and> body rj = Inr jxml"
  then show "\<exists>out. result (searchJstage rt st q n m f t now now2 ids (Fetched rj)) = Inr out
         \<and> map js_title (papers out) =
             map (\<lambda>x. if extractXmlTag x ''title'' = [] then ''No Title''
                       else extractXmlTag x ''title'') (matchedElements jxml)"
    by (simp add: searchJstage_success parseJstageXML_map simplifyJstage_def parseItem_def
          comp_def Let_def)
qed

theorem C1_missing_field_policy_witness:
  "result example_arxiv_call =
     Inr \<lparr>papers =
        [\<lparr>ap_title = ''Deep Nets'', ap_abstract = ''We study nets.'',
          ap_published = ''2023-01-30'', pdfLink = ''https://arxiv.org/pdf/2301.12345.pdf'',
          arxivId = ''2301.12345v1''\<rparr>,
         \<lparr>ap_title = ''No Link'', ap_abstract = [], ap_published = [],
          pdfLink = ''https://arxiv.org/pdf/2302.00001v2.pdf'', arxivId = ''2302.00001v2''\<rparr>]\<rparr>
   \<and> map (\<lambda>e. extractText e ''title'') (map snd (rall entryRegex example_feed)) =
       [''Deep Nets'', [], ''No Link'']
   \<and> map (\<lambda>e. parseEntry example_runtime e = None) (map snd (rall entryRegex example_feed)) =
       [False, True, False]
   \<and> map (\<lambda>m. firstCapture titleRegex (matched m)) example_sections =
       [Some ''Scaling Laws'', None]
   \<and> result (googleGroundingSearchTool example_runtime initial_state ''scaling'' 1
        (Generated \<lparr>g_text = Present example_report, g_groundingChunks = None\<rparr>)) =
       Inr \<lparr>papers = [\<lparr>cp_title = ''Scaling Laws'', cp_authors = [], cp_conference = [],
                        cp_year = [], cp_abstract = [],
                        cp_url = ''https://example.org/scaling''\<rparr>],
            content = Report example_report [], citations = [], searchId = 1,
            query = ''scaling'', success = True, error = None\<rparr>
   \<and> result example_s2_call =
       Inr \<lparr>papers =
          [\<lparr>sp_title = [], sp_abstract = [], sp_year = Undefined, sp_citationCount = 0\<rparr>,
           \<lparr>sp_title = ''Attention'', sp_abstract = [], sp_year = Present 2017,
            sp_citationCount = 90000\<rparr>]\<rparr>
   \<and> result example_core_call =
       Inr \<lparr>papers = [\<lparr>co_coreId = [], co_title = [], co_authors = [], co_abstract = None,
                        co_year = 2025, co_repository = ''Unknown'', co_doi = None\<rparr>],
            totalResults = 1\<rparr>
   \<and> result example_jstage_call =
       Inr \<lparr>papers =
          [\<lparr>js_title = ''Robot Arms'', js_authors = [''Sato''], js_publicationDate = [],
            js_doi = Some ''10.1/ra'', js_journalTitle = None\<rparr>,
           \<lparr>js_title = ''No Title'', js_authors = [], js_publicationDate = [],
            js_doi = None, js_journalTitle = None\<rparr>],
          totalResults = 2\<rparr>"
proof -
  note c1 = C1_missing_field_policy
    [where rt = example_runtime and st = initial_state and now = 100000
       and ra = "Response 200 ''OK'' (Inr example_feed)" and xml = example_feed
       and q = "''nets''" and n = 5 and sb = "''relevance''"
       and e = "''<id>http://arxiv.org/abs/2301.99999v1</id><summary>No title here.</summary>''"
       and sid = 1 and g = "\<lparr>g_text = Present example_report, g_groundingChunks = None\<rparr>"
       and rs = "Response 200 ''OK''
          (Inr \<lparr>d_data = Present [example_s2_blank, example_s2_paper], d_total = Present 2\<rparr>)"
       and json = "\<lparr>d_data = Present [example_s2_blank, example_s2_paper], d_total = Present 2\<rparr>"
       and ?now2.0 = 100250
       and rc = "Response 200 ''OK''
          (Inr \<lparr>cd_results = Present [example_core_blank], cd_totalHits = Present 1\<rparr>)"
       and cjson = "\<lparr>cd_results = Present [example_core_blank], cd_totalHits = Present 1\<rparr>"
       and ctx = example_core_context
       and rj = "Response 200 ''OK'' (Inr example_rss)" and jxml = example_rss
       and m = None and f = None and t = None and ids = "\<lambda>i. ''jstage-100300-0.5''"]
  have hyps: "30000 \<le> 100000 - lastArxivCall initial_state"
    "ok (Response 200 ''OK'' (Inr example_feed))"
    "\<not> isl (getGenAIClient example_runtime initial_state)"
    by (simp_all add: initial_state_def ok_def getGenAIClient_def example_runtime_def)
  have arxiv: "result example_arxiv_call =
      Inr \<lparr>papers = map simplifyArxiv (List.map_filter (parseEntry example_runtime)
                        (map snd (rall entryRegex example_feed)))\<rparr>"
    using c1 hyps by (simp add: example_arxiv_call_def)
  have titles: "map (\<lambda>e. extractText e ''title'') (map snd (rall entryRegex example_feed)) =
       [''Deep Nets'', [], ''No Link'']"
    by code_simp
  have dropped: "map (\<lambda>e. parseEntry example_runtime e = None)
       (map snd (rall entryRegex example_feed)) = [False, True, False]"
    by code_simp
  have sections: "map (\<lambda>m. firstCapture titleRegex (matched m)) example_sections =
       [Some ''Scaling Laws'', None]"
    by code_simp
  from arxiv titles dropped sections show ?thesis
    by (simp add: example_arxiv_call_result example_s2_call_result example_core_call_result
          example_jstage_call_result example_conference_result)
qed

text \<open>
  C2, as the claim states it, fails: one successful Semantic Scholar call that returns two
  papers leaves two entries in its collector, and one successful CORE call leaves none
  anywhere.
\<close>

theorem C2_counterexample:
  "\<not> isl (result (searchSemanticScholar initial_state ''attention'' 80 100000 100250
       (Fetched (Response 200 ''OK''
          (Inr \<lparr>d_data = Present [example_s2_blank, example_s2_paper], d_total = Present 2\<rparr>)))))
   \<and> collectedUrls initial_state = []
   \<and> length (collectedUrls (after (searchSemanticScholar initial_state ''attention'' 80 100000
       100250 (Fetched (Response 200 ''OK''
          (Inr \<lparr>d_data = Present [example_s2_blank, example_s2_paper],
                d_total = Present 2\<rparr>)))))) = 2
   \<and> \<not> isl (result (coreSearchTool example_runtime initial_state example_core_context
       (Fetched (Response 200 ''OK''
          (Inr \<lparr>cd_results = Present [example_core_blank], cd_totalHits = Present 1\<rparr>)))))
   \<and> after (coreSearchTool example_runtime initial_state example_core_context
       (Fetched (Response 200 ''OK''
          (Inr \<lparr>cd_results = Present [example_core_blank], cd_totalHits = Present 1\<rparr>)))) =
       initial_state"
  by code_simp

text \<open>
  C2, amended. There is one collector for each of arXiv, Semantic Scholar and J-STAGE. A
  successful call of one of these tools appends to its own collector one entry for each
  paper it returns, in the order of the papers and behind the entries already there, with
  the title of the paper (for arXiv also its id) and the name of the source, and leaves
  the other two collectors as they are. A call of the CORE tool or of the conference
  search changes no collector.
\<close>

theorem C2_collector_entry_per_paper:
  "(result (searchArxiv rt st q n sb now ra) = Inr outa \<longrightarrow>
      (\<exists>added. collectedArxivUrls (after (searchArxiv rt st q n sb now ra)) =
                 collectedArxivUrls st @ added
         \<and> map c_id added = map arxivId (papers outa)
         \<and> map c_title added = map ap_title (papers outa)
         \<and> map c_source added = map (\<lambda>p. ''arXiv'') (papers outa))
      \<and> collectedUrls (after (searchArxiv rt st q n sb now ra)) = collectedUrls st
      \<and> collectedJstageUrls (after (searchArxiv rt st q n sb now ra)) = collectedJstageUrls st)
   \<and> (result (searchSemanticScholar st q n now now2 rs) = Inr outs \<longrightarrow>
      (\<exists>added. collectedUrls (after (searchSemanticScholar st q n now now2 rs)) =
                 collectedUrls st @ added
         \<and> map c_title added = map sp_title (papers outs)
         \<and> map c_source added = map (\<lambda>p. ''Semantic Scholar'') (papers outs))
      \<and> collectedArxivUrls (after (searchSemanticScholar st q n now now2 rs)) =
          collectedArxivUrls st
      \<and> collectedJstageUrls (after (searchSemanticScholar st q n now now2 rs)) =
          collectedJstageUrls st)
   \<and> (result (searchJstage rt st q n m f t now now2 ids rj) = Inr outj \<longrightarrow>
      (\<exists>added. collectedJstageUrls (after (searchJstage rt st q n m f t now now2 ids rj)) =
                 collectedJstageUrls st @ added
         \<and> map c_title added = map js_title (papers outj)
         \<and> map c_source added = map (\<lambda>p. ''J-STAGE'') (papers outj))
      \<and> collectedArxivUrls (after (searchJstage rt st q n m f t now now2 ids rj)) =
          collectedArxivUrls st
      \<and> collectedUrls (after (searchJstage rt st q n m f t now now2 ids rj)) = collectedUrls st)
   \<and> after (coreSearchTool rt st ctx rc) = st
   \<and> collectedArxivUrls (after (googleGroundingSearchTool rt st q sid gen)) =
       collectedArxivUrls st
   \<and> collectedUrls (after (googleGroundingSearchTool rt st q sid gen)) = collectedUrls st
   \<and> collectedJstageUrls (after (googleGroundingSearchTool rt st q sid gen)) =
       collectedJstageUrls st"
proof -
  have core: "after (coreSearchTool rt st ctx rc) = st"
    by (simp add: coreSearchTool_def)
  note conf = googleGroundingSearchTool_collectors [of rt st q sid gen]
  show ?thesis
    apply (rule conjI)
     apply (rule impI)
     apply (erule arxiv_collects)
    apply (rule conjI)
     apply (rule impI)
     apply (erule s2_collects)
    apply (rule conjI)
     apply (rule impI)
     apply (erule jstage_collects)
    apply (rule conjI)
     apply (rule core)
    apply (rule conf)
    done
qed

theorem C2_collector_entry_per_paper_witness:
  "result example_arxiv_call =
     Inr \<lparr>papers =
        [\<lparr>ap_title = ''Deep Nets'', ap_abstract = ''We study nets.'',
          ap_published = ''2023-01-30'', pdfLink = ''https://arxiv.org/pdf/2301.12345.pdf'',
          arxivId = ''2301.12345v1''\<rparr>,
         \<lparr>ap_title = ''No Link'', ap_abstract = [], ap_published = [],
          pdfLink = ''https://arxiv.org/pdf/2302.00001v2.pdf'', arxivId = ''2302.00001v2''\<rparr>]\<rparr>
   \<and> collectedArxivUrls (after example_arxiv_call) =
       [\<lparr>c_id = ''2301.12345v1'', c_title = ''Deep Nets'',
         c_url = ''https://arxiv.org/abs/2301.12345'', c_source = ''arXiv''\<rparr>,
        \<lparr>c_id = ''2302.00001v2'', c_title = ''No Link'',
         c_url = ''https://arxiv.org/abs/2302.00001v2'', c_source = ''arXiv''\<rparr>]
   \<and> collectedUrls (after example_arxiv_call) = []
   \<and> collectedJstageUrls (after example_arxiv_call) = []
   \<and> map sp_title (papers (projr (result example_s2_call))) = [[], ''Attention'']
   \<and> map c_title (collectedUrls (after example_s2_call)) = [[], ''Attention'']
   \<and> map js_title (papers (projr (result example_jstage_call))) = [''Robot Arms'', ''No Title'']
   \<and> map c_title (collectedJstageUrls (after example_jstage_call)) =
       [''Robot Arms'', ''No Title'']"
proof -
  let ?out = "\<lparr>papers =
        [\<lparr>ap_title = ''Deep Nets'', ap_abstract = ''We study nets.'',
          ap_published = ''2023-01-30'', pdfLink = ''https://arxiv.org/pdf/2301.12345.pdf'',
          arxivId = ''2301.12345v1''\<rparr>,
         \<lparr>ap_title = ''No Link'', ap_abstract = [], ap_published = [],
          pdfLink = ''https://arxiv.org/pdf/2302.00001v2.pdf'', arxivId = ''2302.00001v2''\<rparr>]\<rparr>"
  have ra: "result (searchArxiv example_runtime initial_state ''nets'' 5 ''relevance'' 100000
      (Fetched (Response 200 ''OK'' (Inr example_feed)))) = Inr ?out"
    unfolding example_arxiv_call_def [symmetric] example_arxiv_call_result by simp
  note c2 = C2_collector_entry_per_paper
    [where rt = example_runtime and st = initial_state and q = "''nets''" and n = 5
       and sb = "''relevance''" and now = 100000
       and ra = "Fetched (Response 200 ''OK'' (Inr example_feed))" and outa = ?out,
     THEN conjunct1, THEN mp, OF ra, THEN conjunct2, unfolded example_arxiv_call_def [symmetric]]
  from c2 have others: "collectedUrls (after example_arxiv_call) = []"
    "collectedJstageUrls (after example_arxiv_call) = []"
    by (simp_all add: initial_state_def)
  have rest: "result example_arxiv_call = Inr ?out"
    "collectedArxivUrls (after example_arxiv_call) =
       [\<lparr>c_id = ''2301.12345v1'', c_title = ''Deep Nets'',
         c_url = ''https://arxiv.org/abs/2301.12345'', c_source = ''arXiv''\<rparr>,
        \<lparr>c_id = ''2302.00001v2'', c_title = ''No Link'',
         c_url = ''https://arxiv.org/abs/2302.00001v2'', c_source = ''arXiv''\<rparr>]"
    "map sp_title (papers (projr (result example_s2_call))) = [[], ''Attention'']"
    "map c_title (collectedUrls (after example_s2_call)) = [[], ''Attention'']"
    "map js_title (papers (projr (result example_jstage_call))) = [''Robot Arms'', ''No Title'']"
    "map c_title (collectedJstageUrls (after example_jstage_call)) =
       [''Robot Arms'', ''No Title'']"
    by (simp_all add: initial_state_def example_arxiv_call_result example_s2_call_result
          example_jstage_call_result)
  from others rest show ?thesis by blast
qed

text \<open>
  C3. When a search fails upstream (the fetch rejects, the response is not ok, or its body
  cannot be read), the arXiv, Semantic Scholar and J-STAGE tools throw an error, the one
  their \<^verbatim>\<open>catch\<close> block builds (for arXiv also the one of an active cooldown), while the
  CORE tool returns \<^verbatim>\<open>{papers: [], totalResults: 0}\<close>. When the generative call of the
  conference search throws, or its client cannot be created, that tool returns a value
  whose list of papers is empty.
\<close>

theorem C3_error_policy:
  "(upstreamFailure ra \<longrightarrow>
      (\<exists>w. result (searchArxiv rt st q n sb now ra) = Inl (CooldownActive w))
      \<or> (\<exists>e. result (searchArxiv rt st q n sb now ra) = Inl (rethrow ArXiv e)))
   \<and> (upstreamFailure rs \<longrightarrow>
      (\<exists>e. result (searchSemanticScholar st q n now now2 rs) = Inl (rethrow SemanticScholar e)))
   \<and> (upstreamFailure rj \<longrightarrow>
      (\<exists>e. result (searchJstage rt st q n m f t now now2 ids rj) = Inl (rethrow JStage e)))
   \<and> (upstreamFailure rc \<longrightarrow>
      result (coreSearchTool rt st ctx rc) = Inr \<lparr>papers = [], totalResults = 0\<rparr>)
   \<and> (gen = GenerateThrows e0 \<or> isl (getGenAIClient rt st) \<longrightarrow>
      (\<exists>out. result (googleGroundingSearchTool rt st q sid gen) = Inr out \<and> papers out = []))"
proof (intro conjI impI)
  assume f: "upstreamFailure ra"
  show "(\<exists>w. result (searchArxiv rt st q n sb now ra) = Inl (CooldownActive w))
      \<or> (\<exists>e. result (searchArxiv rt st q n sb now ra) = Inl (rethrow ArXiv e))"
  proof (cases "now - lastArxivCall st < ARXIV_COOLDOWN_MS")
    case True
    then show ?thesis by (simp add: searchArxiv_cooldown)
  next
    case False
    then have "ARXIV_COOLDOWN_MS \<le> now - lastArxivCall st" by simp
    from searchArxiv_failure [OF f this] show ?thesis by blast
  qed
next
  assume "upstreamFailure rs"
  then show "\<exists>e. result (searchSemanticScholar st q n now now2 rs) =
                Inl (rethrow SemanticScholar e)"
    by (rule searchSemanticScholar_failure)
next
  assume "upstreamFailure rj"
  then show "\<exists>e. result (searchJstage rt st q n m f t now now2 ids rj) =
                Inl (rethrow JStage e)"
    by (rule searchJstage_failure)
next
  assume "upstreamFailure rc"
  then show "result (coreSearchTool rt st ctx rc) = Inr \<lparr>papers = [], totalResults = 0\<rparr>"
    by (rule coreSearchTool_failure)
next
  assume "gen = GenerateThrows e0 \<or> isl (getGenAIClient rt st)"
  then show "\<exists>out. result (googleGroundingSearchTool rt st q sid gen) = Inr out \<and> papers out = []"
    by (rule googleGroundingSearchTool_failure)
qed

theorem C3_error_policy_witness:
  "upstreamFailure (example_unavailable :: string fetched)
   \<and> result (searchArxiv example_runtime initial_state ''nets'' 5 ''relevance'' 100000
               example_unavailable) =
       Inl (FailedToSearch ArXiv (RequestFailed ArXiv 503 ''Service Unavailable''))
   \<and> upstreamFailure (FetchThrows (RuntimeError ''fetch failed'') :: S2Response fetched)
   \<and> result (searchSemanticScholar initial_state ''nets'' 5 100000 100250
               (FetchThrows (RuntimeError ''fetch failed''))) =
       Inl (FailedToSearch SemanticScholar (RuntimeError ''fetch failed''))
   \<and> upstreamFailure (Fetched (Response 200 ''OK'' (Inl (RuntimeError ''terminated''))) :: string fetched)
   \<and> result (searchJstage example_runtime initial_state ''nets'' 5 None None None 100000 100250
               (\<lambda>i. []) (Fetched (Response 200 ''OK'' (Inl (RuntimeError ''terminated''))))) =
       Inl (FailedToSearch JStage (RuntimeError ''terminated''))
   \<and> upstreamFailure (example_unavailable :: CoreResponse fetched)
   \<and> result (coreSearchTool example_runtime initial_state example_core_context
               example_unavailable) = Inr \<lparr>papers = [], totalResults = 0\<rparr>
   \<and> result (googleGroundingSearchTool example_runtime initial_state ''nets'' 7
               (GenerateThrows (RuntimeError ''quota exceeded''))) =
       Inr \<lparr>papers = [], content = Apology (RuntimeError ''quota exceeded''), citations = [],
            searchId = 7, query = ''nets'', success = True, error = None\<rparr>"
  using C3_error_policy [where ra = "example_unavailable :: string fetched"
      and rt = example_runtime and st = initial_state and q = "''nets''" and n = 5
      and sb = "''relevance''" and now = 100000 and ?now2.0 = 100250
      and rs = "FetchThrows (RuntimeError ''fetch failed'') :: S2Response fetched"
      and rj = "Fetched (Response 200 ''OK'' (Inl (RuntimeError ''terminated''))) :: string fetched"
      and m = None and f = None and t = None and ids = "\<lambda>i. []"
      and rc = "example_unavailable :: CoreResponse fetched" and ctx = example_core_context
      and gen = "GenerateThrows (RuntimeError ''quota exceeded'')"
      and ?e0.0 = "RuntimeError ''quota exceeded''" and sid = 7]
  by (simp add: upstreamFailure_def example_unavailable_def ok_def searchArxiv_def
        searchSemanticScholar_def searchJstage_def coreSearchTool_def coreTry_def
        googleGroundingSearchTool_def searchTopConferences_def conferenceTry_def
        getGenAIClient_def example_runtime_def initial_state_def ARXIV_COOLDOWN_MS_def
        SEMANTIC_SCHOLAR_COOLDOWN_MS_def JSTAGE_COOLDOWN_MS_def Let_def)

text \<open>
  C4. An arXiv search less than 30000 ms after the last recorded successful one throws the
  cooldown error, issues no request and leaves the state as it is; at 30000 ms or later
  it issues its request, and returns papers unless the upstream fails. The time a
  successful call records is the \<^verbatim>\<open>Date.now()\<close> of its own cooldown check.
\<close>

theorem C4_arxiv_cooldown:
  "(now - lastArxivCall st < 30000 \<longrightarrow>
      result (searchArxiv rt st q n sb now resp) =
        Inl (CooldownActive (- (- (30000 - (now - lastArxivCall st)) div 1000)))
      \<and> effects (searchArxiv rt st q n sb now resp) = []
      \<and> after (searchArxiv rt st q n sb now resp) = st)
   \<and> (30000 \<le> now - lastArxivCall st \<longrightarrow>
      effects (searchArxiv rt st q n sb now resp) = [arxivRequest q n sb]
      \<and> (\<not> upstreamFailure resp \<longrightarrow>
           (\<exists>out. result (searchArxiv rt st q n sb now resp) = Inr out)))
   \<and> (result (searchArxiv rt st0 q0 n0 sb0 t0 resp0) = Inr out0 \<longrightarrow>
      lastArxivCall (after (searchArxiv rt st0 q0 n0 sb0 t0 resp0)) = t0)"
proof (intro conjI impI)
  assume "now - lastArxivCall st < 30000"
  then have c: "now - lastArxivCall st < ARXIV_COOLDOWN_MS"
    by (simp add: ARXIV_COOLDOWN_MS_def)
  from searchArxiv_cooldown [OF c]
  show "result (searchArxiv rt st q n sb now resp) =
          Inl (CooldownActive (- (- (30000 - (now - lastArxivCall st)) div 1000)))"
    and "effects (searchArxiv rt st q n sb now resp) = []"
    and "after (searchArxiv rt st q n sb now resp) = st"
    by (simp_all add: ARXIV_COOLDOWN_MS_def)
next
  assume "30000 \<le> now - lastArxivCall st"
  then have c: "ARXIV_COOLDOWN_MS \<le> now - lastArxivCall st"
    by (simp add: ARXIV_COOLDOWN_MS_def)
  from searchArxiv_effects [OF c]
  show "effects (searchArxiv rt st q n sb now resp) = [arxivRequest q n sb]" .
  assume "\<not> upstreamFailure resp"
  from searchArxiv_no_failure [OF this c]
  show "\<exists>out. result (searchArxiv rt st q n sb now resp) = Inr out" .
next
  assume s: "result (searchArxiv rt st0 q0 n0 sb0 t0 resp0) = Inr out0"
  from searchArxiv_Inr [OF s] obtain r xml where
    r: "resp0 = Fetched r" "ok r" "body r = Inr xml" "ARXIV_COOLDOWN_MS \<le> t0 - lastArxivCall st0"
    by blast
  show "lastArxivCall (after (searchArxiv rt st0 q0 n0 sb0 t0 resp0)) = t0"
    by (simp add: r(1) searchArxiv_success [OF r(4) r(2) r(3)])
qed

theorem C4_arxiv_cooldown_witness:
  "result example_arxiv_call =
     Inr \<lparr>papers =
        [\<lparr>ap_title = ''Deep Nets'', ap_abstract = ''We study nets.'',
          ap_published = ''2023-01-30'', pdfLink = ''https://arxiv.org/pdf/2301.12345.pdf'',
          arxivId = ''2301.12345v1''\<rparr>,
         \<lparr>ap_title = ''No Link'', ap_abstract = [], ap_published = [],
          pdfLink = ''https://arxiv.org/pdf/2302.00001v2.pdf'', arxivId = ''2302.00001v2''\<rparr>]\<rparr>
   \<and> lastArxivCall (after example_arxiv_call) = 100000
   \<and> searchArxiv example_runtime (after example_arxiv_call) ''nets'' 5 ''relevance'' 129999
        (Fetched (Response 200 ''OK'' (Inr example_feed))) =
       \<lparr>result = Inl (CooldownActive 1), effects = [], after = after example_arxiv_call\<rparr>
   \<and> effects (searchArxiv example_runtime (after example_arxiv_call) ''nets'' 5 ''relevance''
        130000 (Fetched (Response 200 ''OK'' (Inr example_feed)))) =
       [arxivRequest ''nets'' 5 ''relevance'']
   \<and> \<not> isl (result (searchArxiv example_runtime (after example_arxiv_call) ''nets'' 5
        ''relevance'' 130000 (Fetched (Response 200 ''OK'' (Inr example_feed)))))"
proof -
  let ?ok = "Fetched (Response 200 ''OK'' (Inr example_feed))"
  let ?st1 = "after example_arxiv_call"
  have first: "result (searchArxiv example_runtime initial_state ''nets'' 5 ''relevance''
      100000 ?ok) = result example_arxiv_call"
    by (simp add: example_arxiv_call_def)
  have last: "lastArxivCall ?st1 = 100000"
    by (simp add: example_arxiv_call_result initial_state_def)
  have nofail: "\<not> upstreamFailure ?ok"
    by (simp add: upstreamFailure_def ok_def)
  note early = C4_arxiv_cooldown [where rt = example_runtime and st = ?st1 and now = 129999
      and q = "''nets''" and n = 5 and sb = "''relevance''" and resp = ?ok
      and ?st0.0 = initial_state and ?q0.0 = "''nets''" and ?n0.0 = 5
      and ?sb0.0 = "''relevance''" and ?t0.0 = 100000 and ?resp0.0 = ?ok]
  note late = C4_arxiv_cooldown [where rt = example_runtime and st = ?st1 and now = 130000
      and q = "''nets''" and n = 5 and sb = "''relevance''" and resp = ?ok
      and ?st0.0 = initial_state and ?q0.0 = "''nets''" and ?n0.0 = 5
      and ?sb0.0 = "''relevance''" and ?t0.0 = 100000 and ?resp0.0 = ?ok]
  have rejected: "searchArxiv example_runtime ?st1 ''nets'' 5 ''relevance'' 129999 ?ok =
       \<lparr>result = Inl (CooldownActive 1), effects = [], after = ?st1\<rparr>"
    using early last by simp
  have sent: "effects (searchArxiv example_runtime ?st1 ''nets'' 5 ''relevance'' 130000 ?ok) =
       [arxivRequest ''nets'' 5 ''relevance'']"
    using late last by simp
  have "\<exists>out. result (searchArxiv example_runtime ?st1 ''nets'' 5 ''relevance'' 130000 ?ok) =
       Inr out"
    using late last nofail by simp
  then have returns:
    "\<not> isl (result (searchArxiv example_runtime ?st1 ''nets'' 5 ''relevance'' 130000 ?ok))"
    by auto
  from rejected sent returns last show ?thesis
    by (simp add: example_arxiv_call_result)
qed

text \<open>
  C5. A Semantic Scholar or J-STAGE search less than 1000 ms after the last recorded call
  to that source is suspended for the rest of the 1000 ms and then issues its request;
  it returns papers unless the upstream fails. No call of either tool ever throws the
  cooldown error: what a call returns or throws is what it would return or throw with the
  cooldown over.
\<close>

theorem C5_blocking_wait:
  "(now - lastSemanticScholarCall st < 1000 \<longrightarrow>
      effects (searchSemanticScholar st q n now now2 rs) =
        [Sleep (1000 - (now - lastSemanticScholarCall st)), s2Request q n]
      \<and> (\<not> upstreamFailure rs \<longrightarrow>
           (\<exists>out. result (searchSemanticScholar st q n now now2 rs) = Inr out)))
   \<and> (\<forall>w. result (searchSemanticScholar st q n now now2 rs) \<noteq> Inl (CooldownActive w))
   \<and> result (searchSemanticScholar st q n now now2 rs) =
       result (searchSemanticScholar st q n (lastSemanticScholarCall st + 1000) now2 rs)
   \<and> (now - lastJstageCall st < 1000 \<longrightarrow>
      effects (searchJstage rt st q n m f t now now2 ids rj) =
        [Sleep (1000 - (now - lastJstageCall st)), jstageRequest q n m f t]
      \<and> (\<not> upstreamFailure rj \<longrightarrow>
           (\<exists>out. result (searchJstage rt st q n m f t now now2 ids rj) = Inr out)))
   \<and> (\<forall>w. result (searchJstage rt st q n m f t now now2 ids rj) \<noteq> Inl (CooldownActive w))
   \<and> result (searchJstage rt st q n m f t now now2 ids rj) =
       result (searchJstage rt st q n m f t (lastJstageCall st + 1000) now2 ids rj)"
  by (simp add: searchSemanticScholar_effects searchJstage_effects
        searchSemanticScholar_no_failure searchJstage_no_failure
        searchSemanticScholar_not_cooldown searchJstage_not_cooldown
        searchSemanticScholar_result_any_time [of st q n now]
        searchJstage_result_any_time [of rt st q n m f t now]
        SEMANTIC_SCHOLAR_COOLDOWN_MS_def JSTAGE_COOLDOWN_MS_def)

theorem C5_blocking_wait_witness:
  "lastSemanticScholarCall (after example_s2_call) = 100250
   \<and> searchSemanticScholar (after example_s2_call) ''attention'' 80 100650 100900
        (Fetched (Response 200 ''OK'' (Inr \<lparr>d_data = Present [], d_total = Present 0\<rparr>))) =
       \<lparr>result = Inr \<lparr>papers = []\<rparr>,
        effects = [Sleep 600, s2Request ''attention'' 80],
        after = (after example_s2_call)\<lparr>lastSemanticScholarCall := 100900\<rparr>\<rparr>
   \<and> lastJstageCall (after example_jstage_call) = 100300
   \<and> effects (searchJstage example_runtime (after example_jstage_call) ''robot'' 500 None None
        None 100301 101400 (\<lambda>i. []) (Fetched (Response 200 ''OK'' (Inr [])))) =
       [Sleep 999, jstageRequest ''robot'' 500 None None None]
   \<and> result (searchJstage example_runtime (after example_jstage_call) ''robot'' 500 None None
        None 100301 101400 (\<lambda>i. []) (Fetched (Response 200 ''OK'' (Inr [])))) =
       Inr \<lparr>papers = [], totalResults = 0\<rparr>"
proof -
  let ?s1 = "after example_s2_call" and ?j1 = "after example_jstage_call"
  let ?rs = "Fetched (Response 200 ''OK'' (Inr \<lparr>d_data = Present [], d_total = Present 0\<rparr>))"
  let ?rj = "Fetched (Response 200 ''OK'' (Inr [])) :: string fetched"
  have s: "lastSemanticScholarCall ?s1 = 100250"
    by (simp add: example_s2_call_result initial_state_def)
  have j: "lastJstageCall ?j1 = 100300"
    by (simp add: example_jstage_call_result initial_state_def)
  note c5s = C5_blocking_wait [where st = ?s1 and now = 100650 and ?now2.0 = 100900
      and q = "''attention''" and n = 80 and rs = ?rs and rj = ?rj and rt = example_runtime
      and m = None and f = None and t = None and ids = "\<lambda>i. []"]
  note c5j = C5_blocking_wait [where st = ?j1 and now = 100301 and ?now2.0 = 101400
      and q = "''robot''" and n = 500 and rs = ?rs and rj = ?rj and rt = example_runtime
      and m = None and f = None and t = None and ids = "\<lambda>i. []"]
  have es: "effects (searchSemanticScholar ?s1 ''attention'' 80 100650 100900 ?rs) =
      [Sleep 600, s2Request ''attention'' 80]"
    using c5s s by simp
  have ej: "effects (searchJstage example_runtime ?j1 ''robot'' 500 None None None 100301
      101400 (\<lambda>i. []) ?rj) = [Sleep 999, jstageRequest ''robot'' 500 None None None]"
    using c5j j by simp
  have rs: "result (searchSemanticScholar ?s1 ''attention'' 80 100650 100900 ?rs) =
      Inr \<lparr>papers = []\<rparr>"
    "after (searchSemanticScholar ?s1 ''attention'' 80 100650 100900 ?rs) =
      ?s1\<lparr>lastSemanticScholarCall := 100900\<rparr>"
    by (simp_all add: searchSemanticScholar_def ok_def Let_def)
  have rj: "result (searchJstage example_runtime ?j1 ''robot'' 500 None None None 100301
      101400 (\<lambda>i. []) ?rj) = Inr \<lparr>papers = [], totalResults = 0\<rparr>"
    by code_simp
  have "searchSemanticScholar ?s1 ''attention'' 80 100650 100900 ?rs =
       \<lparr>result = Inr \<lparr>papers = []\<rparr>, effects = [Sleep 600, s2Request ''attention'' 80],
        after = ?s1\<lparr>lastSemanticScholarCall := 100900\<rparr>\<rparr>"
    using es rs by (cases "searchSemanticScholar ?s1 ''attention'' 80 100650 100900 ?rs") simp
  with s j ej rj show ?thesis by simp
qed

text \<open>
  C6, as the claim states it, fails: Semantic Scholar, whose schema declares 100 as the
  upper bound, sends 50 for 80; the clients of CORE and arXiv send 500 for 500.
\<close>

theorem C6_counterexample:
  "map_of (params (last (effects (searchSemanticScholar initial_state ''attention'' 80 100000
       100250 (FetchThrows (RuntimeError ''fetch failed'')))))) ''limit'' = Some (Num 50)
   \<and> min 80 100 = (80 :: int)
   \<and> map_of (params (last (effects (coreSearchTool example_runtime initial_state
       (example_core_context\<lparr>cx_maxResults := 500\<rparr>)
       (FetchThrows (RuntimeError ''fetch failed'')))))) ''limit'' = Some (Num 500)
   \<and> map_of (params (last (effects (searchArxiv example_runtime initial_state ''nets'' 500
       ''relevance'' 100000 (FetchThrows (RuntimeError ''fetch failed'')))))) ''max_results'' =
       Some (Num 500)"
  by (simp add: searchSemanticScholar_effects s2Request_def coreSearchTool_def coreRequest_def
        searchArxiv_effects_any arxivRequest_def initial_state_def example_core_context_def
        ARXIV_COOLDOWN_MS_def SEMANTIC_SCHOLAR_COOLDOWN_MS_def)

text \<open>
  C6, amended. J-STAGE sends the smaller of \<^verbatim>\<open>maxResults\<close> and 100, the upper bound
  its schema declares. Semantic Scholar sends the smaller of \<^verbatim>\<open>maxResults\<close> and 50, which
  is below the 100 its schema declares. arXiv (when the cooldown lets the call through)
  and CORE send \<^verbatim>\<open>maxResults\<close> as it is.
\<close>

theorem C6_max_results_sent:
  "last (effects (searchJstage rt st q n m f t now now2 ids rj)) = jstageRequest q n m f t
   \<and> map_of (params (jstageRequest q n m f t)) ''count'' = Some (Num (min n 100))
   \<and> last (effects (searchSemanticScholar st q n now now2 rs)) = s2Request q n
   \<and> map_of (params (s2Request q n)) ''limit'' = Some (Num (min n 50))
   \<and> effects (searchArxiv rt st q n sb now ra) =
       (if now - lastArxivCall st < 30000 then [] else [arxivRequest q n sb])
   \<and> map_of (params (arxivRequest q n sb)) ''max_results'' = Some (Num n)
   \<and> effects (coreSearchTool rt st ctx rc) = [coreRequest rt ctx]
   \<and> map_of (params (coreRequest rt ctx)) ''limit'' = Some (Num (cx_maxResults ctx))"
  by (simp add: searchJstage_effects searchSemanticScholar_effects searchArxiv_effects_any
        jstageRequest_def s2Request_def arxivRequest_def coreSearchTool_def coreRequest_def
        ARXIV_COOLDOWN_MS_def)

text \<open>
  C7, as the claim states it, fails: a Semantic Scholar call whose response is ok but whose
  body is no JSON throws, and has still written the time of the last call.
\<close>

theorem C7_counterexample:
  "isl (result (searchSemanticScholar initial_state ''attention'' 80 100000 100250
          (Fetched (Response 200 ''OK'' (Inl (RuntimeError ''Unexpected token < in JSON''))))))
   \<and> lastSemanticScholarCall initial_state = 0
   \<and> lastSemanticScholarCall (after (searchSemanticScholar initial_state ''attention'' 80
          100000 100250
          (Fetched (Response 200 ''OK'' (Inl (RuntimeError ''Unexpected token < in JSON'')))))) =
       100250"
  by (simp add: searchSemanticScholar_def initial_state_def ok_def Let_def
        SEMANTIC_SCHOLAR_COOLDOWN_MS_def)

text \<open>
  C7, amended. The time of the last call of a source is written when the response of the
  upstream is ok: every call that returns papers has written it (arXiv the
  \<^verbatim>\<open>Date.now()\<close> of its cooldown check, Semantic Scholar and J-STAGE the one read behind
  the response), and so has a call that fails behind an ok response. A call that is
  rejected by the cooldown, whose fetch rejects, or whose response is not ok leaves the
  whole state as it is.
\<close>

theorem C7_rate_state_written_on_ok_response:
  "(result (searchArxiv rt st q n sb now ra) = Inr outa \<longrightarrow>
      lastArxivCall (after (searchArxiv rt st q n sb now ra)) = now)
   \<and> (now - lastArxivCall st < 30000 \<or> ra = FetchThrows e \<or> (\<exists>r. ra = Fetched r \<and> \<not> ok r) \<longrightarrow>
      after (searchArxiv rt st q n sb now ra) = st)
   \<and> (30000 \<le> now - lastArxivCall st \<and> (\<exists>r. ra = Fetched r \<and> ok r) \<longrightarrow>
      lastArxivCall (after (searchArxiv rt st q n sb now ra)) = now)
   \<and> (result (searchSemanticScholar st q n now now2 rs) = Inr outs \<longrightarrow>
      lastSemanticScholarCall (after (searchSemanticScholar st q n now now2 rs)) = now2)
   \<and> (rs = FetchThrows e \<or> (\<exists>r. rs = Fetched r \<and> \<not> ok r) \<longrightarrow>
      after (searchSemanticScholar st q n now now2 rs) = st)
   \<and> ((\<exists>r. rs = Fetched r \<and> ok r) \<longrightarrow>
      lastSemanticScholarCall (after (searchSemanticScholar st q n now now2 rs)) = now2)
   \<and> (result (searchJstage rt st q n m f t now now2 ids rj) = Inr outj \<longrightarrow>
      lastJstageCall (after (searchJstage rt st q n m f t now now2 ids rj)) = now2)
   \<and> (rj = FetchThrows e \<or> (\<exists>r. rj = Fetched r \<and> \<not> ok r) \<longrightarrow>
      after (searchJstage rt st q n m f t now now2 ids rj) = st)
   \<and> ((\<exists>r. rj = Fetched r \<and> ok r) \<longrightarrow>
      lastJstageCall (after (searchJstage rt st q n m f t now now2 ids rj)) = now2)"
proof (intro conjI impI)
  assume "result (searchArxiv rt st q n sb now ra) = Inr outa"
  from searchArxiv_Inr [OF this]
  show "lastArxivCall (after (searchArxiv rt st q n sb now ra)) = now"
    by (auto simp: searchArxiv_recorded)
next
  assume "now - lastArxivCall st < 30000 \<or> ra = FetchThrows e \<or> (\<exists>r. ra = Fetched r \<and> \<not> ok r)"
  then show "after (searchArxiv rt st q n sb now ra) = st"
    using searchArxiv_unchanged [of now st ra e _ rt q n sb]
    by (auto simp: ARXIV_COOLDOWN_MS_def)
next
  assume "30000 \<le> now - lastArxivCall st \<and> (\<exists>r. ra = Fetched r \<and> ok r)"
  then show "lastArxivCall (after (searchArxiv rt st q n sb now ra)) = now"
    by (auto simp: searchArxiv_recorded ARXIV_COOLDOWN_MS_def)
next
  assume "result (searchSemanticScholar st q n now now2 rs) = Inr outs"
  from searchSemanticScholar_Inr [OF this]
  show "lastSemanticScholarCall (after (searchSemanticScholar st q n now now2 rs)) = now2"
    by (auto simp: searchSemanticScholar_recorded)
next
  assume "rs = FetchThrows e \<or> (\<exists>r. rs = Fetched r \<and> \<not> ok r)"
  then show "after (searchSemanticScholar st q n now now2 rs) = st"
    using searchSemanticScholar_unchanged [of rs e _ st q n now now2] by auto
next
  assume "\<exists>r. rs = Fetched r \<and> ok r"
  then show "lastSemanticScholarCall (after (searchSemanticScholar st q n now now2 rs)) = now2"
    by (auto simp: searchSemanticScholar_recorded)
next
  assume "result (searchJstage rt st q n m f t now now2 ids rj) = Inr outj"
  from searchJstage_Inr [OF this]
  show "lastJstageCall (after (searchJstage rt st q n m f t now now2 ids rj)) = now2"
    by (auto simp: searchJstage_recorded)
next
  assume "rj = FetchThrows e \<or> (\<exists>r. rj = Fetched r \<and> \<not> ok r)"
  then show "after (searchJstage rt st q n m f t now now2 ids rj) = st"
    using searchJstage_unchanged [of rj e _ rt st q n m f t now now2 ids] by auto
next
  assume "\<exists>r. rj = Fetched r \<and> ok r"
  then show "lastJstageCall (after (searchJstage rt st q n m f t now now2 ids rj)) = now2"
    by (auto simp: searchJstage_recorded)
qed

theorem C7_rate_state_written_on_ok_response_witness:
  "lastArxivCall (after example_arxiv_call) = 100000
   \<and> after (searchArxiv example_runtime (after example_arxiv_call) ''nets'' 5 ''relevance''
        129999 (Fetched (Response 200 ''OK'' (Inr example_feed)))) = after example_arxiv_call
   \<and> lastSemanticScholarCall (after example_s2_call) = 100250
   \<and> after (searchSemanticScholar (after example_s2_call) ''attention'' 80 105000 105200
        example_unavailable) = after example_s2_call
   \<and> lastSemanticScholarCall (after (searchSemanticScholar (after example_s2_call)
        ''attention'' 80 105000 105200
        (Fetched (Response 200 ''OK'' (Inl (RuntimeError ''Unexpected token'')))))) = 105200
   \<and> lastJstageCall (after example_jstage_call) = 100300
   \<and> after (searchJstage example_runtime (after example_jstage_call) ''robot'' 500 None None
        None 105000 105200 (\<lambda>i. []) (FetchThrows (RuntimeError ''fetch failed''))) =
       after example_jstage_call"
proof -
  let ?a1 = "after example_arxiv_call"
  have a1: "lastArxivCall ?a1 = 100000"
    by (simp add: example_arxiv_call_result initial_state_def)
  note rejected = C7_rate_state_written_on_ok_response
    [where rt = example_runtime and st = ?a1 and q = "''nets''" and n = 5
       and sb = "''relevance''" and now = 129999
       and ra = "Fetched (Response 200 ''OK'' (Inr example_feed))"
       and rs = "FetchThrows NonError" and rj = "FetchThrows NonError",
     THEN conjunct2, THEN conjunct1]
  note s2 = C7_rate_state_written_on_ok_response
    [where st = "after example_s2_call" and q = "''attention''" and n = 80
       and now = 105000 and ?now2.0 = 105200 and rs = example_unavailable,
     THEN conjunct2, THEN conjunct2, THEN conjunct2, THEN conjunct2, THEN conjunct1]
  note s2ok = C7_rate_state_written_on_ok_response
    [where st = "after example_s2_call" and q = "''attention''" and n = 80
       and now = 105000 and ?now2.0 = 105200
       and rs = "Fetched (Response 200 ''OK'' (Inl (RuntimeError ''Unexpected token'')))",
     THEN conjunct2, THEN conjunct2, THEN conjunct2, THEN conjunct2, THEN conjunct2,
     THEN conjunct1]
  note js = C7_rate_state_written_on_ok_response
    [where rt = example_runtime and st = "after example_jstage_call" and q = "''robot''"
       and n = 500 and m = None and f = None and t = None and now = 105000
       and ?now2.0 = 105200 and ids = "\<lambda>i. []"
       and rj = "FetchThrows (RuntimeError ''fetch failed'')" and e = "RuntimeError ''fetch failed''",
     THEN conjunct2, THEN conjunct2, THEN conjunct2, THEN conjunct2, THEN conjunct2,
     THEN conjunct2, THEN conjunct2, THEN conjunct1]
  have 1: "after (searchArxiv example_runtime ?a1 ''nets'' 5 ''relevance'' 129999
        (Fetched (Response 200 ''OK'' (Inr example_feed)))) = ?a1"
    using rejected a1 by simp
  have 2: "after (searchSemanticScholar (after example_s2_call) ''attention'' 80 105000 105200
        example_unavailable) = after example_s2_call"
    using s2 by (simp add: example_unavailable_def ok_def)
  have 3: "lastSemanticScholarCall (after (searchSemanticScholar (after example_s2_call)
        ''attention'' 80 105000 105200
        (Fetched (Response 200 ''OK'' (Inl (RuntimeError ''Unexpected token'')))))) = 105200"
    using s2ok by (simp add: ok_def)
  have 4: "after (searchJstage example_runtime (after example_jstage_call) ''robot'' 500 None
        None None 105000 105200 (\<lambda>i. []) (FetchThrows (RuntimeError ''fetch failed''))) =
       after example_jstage_call"
    using js by simp
  have 5: "lastSemanticScholarCall (after example_s2_call) = 100250"
    by (simp add: example_s2_call_result initial_state_def)
  have 6: "lastJstageCall (after example_jstage_call) = 100300"
    by (simp add: example_jstage_call_result initial_state_def)
  from a1 1 2 3 4 5 6 show ?thesis by simp
qed

text \<open>
  C8. The arXiv normalizer makes the \<^verbatim>\<open>pdfLink\<close> of a paper from the link of its entry
  alone, for every entry and every paper the tool returns. In a link that contains
  \<^verbatim>\<open>/abs/\<close> the first occurrence of \<^verbatim>\<open>/abs/\<close> is replaced by \<^verbatim>\<open>/pdf/\<close> (every link that
  contains \<^verbatim>\<open>/abs/\<close> has a first occurrence, and a later one is left as it is); a link
  without \<^verbatim>\<open>/abs/\<close> is not rewritten. Then \<^verbatim>\<open>.pdf\<close> is appended, unless the link ends with
  \<^verbatim>\<open>.pdf\<close> already. So for the link \<^verbatim>\<open>https://arxiv.org/abs/2301.12345\<close> the returned
  \<^verbatim>\<open>pdfLink\<close> is \<^verbatim>\<open>https://arxiv.org/pdf/2301.12345.pdf\<close>, whatever the other fields of
  the entry are; so it is for the entry of the example feed whose link is that one.
\<close>

theorem C8_abs_link_to_pdf_link:
  "pdfLink (simplifyArxiv e) = toPdfLink (e_link e)
   \<and> (result (searchArxiv rt st q n sb now resp) = Inr out \<longrightarrow>
        (\<exists>r xml. resp = Fetched r \<and> body r = Inr xml
           \<and> map pdfLink (papers out) =
               map (\<lambda>entry. toPdfLink (e_link entry)) (parseArxivXML rt xml)))
   \<and> (\<not> includes_str (pre @ ''/abs'') ''/abs/'' \<longrightarrow>
        toPdfLink (pre @ ''/abs/'' @ post) =
          (if endsWith (pre @ ''/pdf/'' @ post) ''.pdf'' then pre @ ''/pdf/'' @ post
           else pre @ ''/pdf/'' @ post @ ''.pdf''))
   \<and> (includes_str link ''/abs/'' \<longrightarrow>
        (\<exists>pre post. link = pre @ ''/abs/'' @ post \<and> \<not> includes_str (pre @ ''/abs'') ''/abs/''))
   \<and> (\<not> includes_str other ''/abs/'' \<longrightarrow>
        toPdfLink other = (if endsWith other ''.pdf'' then other else other @ ''.pdf''))
   \<and> includes_str link sub = (\<exists>pre post. link = pre @ sub @ post)
   \<and> endsWith link sub = (\<exists>pre. link = pre @ sub)
   \<and> toPdfLink ''https://arxiv.org/abs/2301.12345'' = ''https://arxiv.org/pdf/2301.12345.pdf''
   \<and> pdfLink (simplifyArxiv (e\<lparr>e_link := ''https://arxiv.org/abs/2301.12345''\<rparr>)) =
       ''https://arxiv.org/pdf/2301.12345.pdf''
   \<and> map e_link (parseArxivXML example_runtime example_feed) =
       [''https://arxiv.org/abs/2301.12345'', ''https://arxiv.org/abs/2302.00001v2'']
   \<and> map pdfLink (papers (projr (result example_arxiv_call))) =
       [''https://arxiv.org/pdf/2301.12345.pdf'', ''https://arxiv.org/pdf/2302.00001v2.pdf'']"
proof -
  have simplified: "pdfLink (simplifyArxiv e) = toPdfLink (e_link e)"
    by (simp add: simplifyArxiv_def)
  have returned: "result (searchArxiv rt st q n sb now resp) = Inr out \<longrightarrow>
        (\<exists>r xml. resp = Fetched r \<and> body r = Inr xml
           \<and> map pdfLink (papers out) =
               map (\<lambda>entry. toPdfLink (e_link entry)) (parseArxivXML rt xml))"
  proof
    assume s: "result (searchArxiv rt st q n sb now resp) = Inr out"
    from searchArxiv_Inr [OF s] obtain r xml where
      r: "resp = Fetched r" "ok r" "body r = Inr xml"
         "ARXIV_COOLDOWN_MS \<le> now - lastArxivCall st"
      by blast
    from s searchArxiv_success [OF r(4) r(2) r(3), of rt q n sb]
    have "papers out = map simplifyArxiv (parseArxivXML rt xml)"
      by (auto simp: r(1))
    then have "map pdfLink (papers out) =
        map (\<lambda>entry. toPdfLink (e_link entry)) (parseArxivXML rt xml)"
      by (simp add: simplifyArxiv_def comp_def)
    with r(1) r(3) show "\<exists>r xml. resp = Fetched r \<and> body r = Inr xml
           \<and> map pdfLink (papers out) =
               map (\<lambda>entry. toPdfLink (e_link entry)) (parseArxivXML rt xml)"
      by blast
  qed
  have rewritten: "\<not> includes_str (pre @ ''/abs'') ''/abs/'' \<longrightarrow>
        toPdfLink (pre @ ''/abs/'' @ post) =
          (if endsWith (pre @ ''/pdf/'' @ post) ''.pdf'' then pre @ ''/pdf/'' @ post
           else pre @ ''/pdf/'' @ post @ ''.pdf'')"
    using toPdfLink_abs [of pre post] by blast
  have first: "includes_str link ''/abs/'' \<longrightarrow>
        (\<exists>pre post. link = pre @ ''/abs/'' @ post \<and> \<not> includes_str (pre @ ''/abs'') ''/abs/'')"
    using toPdfLink_first_abs [of link] by blast
  have kept: "\<not> includes_str other ''/abs/'' \<longrightarrow>
        toPdfLink other = (if endsWith other ''.pdf'' then other else other @ ''.pdf'')"
    using toPdfLink_other [of other] by blast
  have inc: "includes_str link sub = (\<exists>pre post. link = pre @ sub @ post)"
    by (rule includes_str_iff)
  have ends: "endsWith link sub = (\<exists>pre. link = pre @ sub)"
    by (rule endsWith_iff)
  have feed: "map e_link (parseArxivXML example_runtime example_feed) =
       [''https://arxiv.org/abs/2301.12345'', ''https://arxiv.org/abs/2302.00001v2'']"
    by code_simp
  have literal: "toPdfLink ''https://arxiv.org/abs/2301.12345'' =
       ''https://arxiv.org/pdf/2301.12345.pdf''"
    by (simp add: toPdfLink_def endsWith_def)
  then have entry: "pdfLink (simplifyArxiv (e\<lparr>e_link := ''https://arxiv.org/abs/2301.12345''\<rparr>)) =
       ''https://arxiv.org/pdf/2301.12345.pdf''"
    by (simp add: simplifyArxiv_def)
  have example: "map pdfLink (papers (projr (result example_arxiv_call))) =
       [''https://arxiv.org/pdf/2301.12345.pdf'', ''https://arxiv.org/pdf/2302.00001v2.pdf'']"
    by (simp add: example_arxiv_call_result)
  from simplified returned rewritten first kept inc ends literal entry feed example
  show ?thesis by (intro conjI)
qed

theorem C8_abs_link_to_pdf_link_witness:
  "\<not> includes_str (''https://arxiv.org'' @ ''/abs'') ''/abs/''
   \<and> toPdfLink (''https://arxiv.org'' @ ''/abs/'' @ ''2301.12345'') =
       ''https://arxiv.org/pdf/2301.12345.pdf''
   \<and> \<not> includes_str (''a'' @ ''/abs'') ''/abs/''
   \<and> toPdfLink (''a'' @ ''/abs/'' @ ''b/abs/c.pdf'') = ''a/pdf/b/abs/c.pdf''
   \<and> includes_str ''a/abs/b/abs/c.pdf'' ''/abs/''
   \<and> (\<exists>pre post. ''a/abs/b/abs/c.pdf'' = pre @ ''/abs/'' @ post
         \<and> \<not> includes_str (pre @ ''/abs'') ''/abs/'')
   \<and> \<not> includes_str ''https://arxiv.org/pdf/2301.12345v1'' ''/abs/''
   \<and> toPdfLink ''https://arxiv.org/pdf/2301.12345v1'' = ''https://arxiv.org/pdf/2301.12345v1.pdf''
   \<and> map pdfLink (papers (projr (result example_arxiv_call))) =
       map (\<lambda>entry. toPdfLink (e_link entry)) (parseArxivXML example_runtime example_feed)"
proof -
  have a: "\<not> includes_str (''https://arxiv.org'' @ ''/abs'') ''/abs/''"
    by code_simp
  have b: "\<not> includes_str (''a'' @ ''/abs'') ''/abs/''"
    by code_simp
  have c: "includes_str ''a/abs/b/abs/c.pdf'' ''/abs/''"
    by code_simp
  have d: "\<not> includes_str ''https://arxiv.org/pdf/2301.12345v1'' ''/abs/''"
    by code_simp
  have run: "result (searchArxiv example_runtime initial_state ''nets'' 5 ''relevance'' 100000
               (Fetched (Response 200 ''OK'' (Inr example_feed)))) =
             Inr (projr (result example_arxiv_call))"
    by (simp add: example_arxiv_call_result example_arxiv_call_def [symmetric])
  have 1: "toPdfLink (''https://arxiv.org'' @ ''/abs/'' @ ''2301.12345'') =
       ''https://arxiv.org/pdf/2301.12345.pdf''"
    using C8_abs_link_to_pdf_link
      [where pre = "''https://arxiv.org''" and post = "''2301.12345''",
       THEN conjunct2, THEN conjunct2, THEN conjunct1, THEN mp, OF a]
    by (simp add: endsWith_def)
  have 2: "toPdfLink (''a'' @ ''/abs/'' @ ''b/abs/c.pdf'') = ''a/pdf/b/abs/c.pdf''"
    using C8_abs_link_to_pdf_link
      [where pre = "''a''" and post = "''b/abs/c.pdf''",
       THEN conjunct2, THEN conjunct2, THEN conjunct1, THEN mp, OF b]
    by (simp add: endsWith_def)
  note 3 = C8_abs_link_to_pdf_link
      [where link = "''a/abs/b/abs/c.pdf''",
       THEN conjunct2, THEN conjunct2, THEN conjunct2, THEN conjunct1, THEN mp, OF c]
  have 4: "toPdfLink ''https://arxiv.org/pdf/2301.12345v1'' =
       ''https://arxiv.org/pdf/2301.12345v1.pdf''"
    using C8_abs_link_to_pdf_link
      [where other = "''https://arxiv.org/pdf/2301.12345v1''",
       THEN conjunct2, THEN conjunct2, THEN conjunct2, THEN conjunct2, THEN conjunct1,
       THEN mp, OF d]
    by (simp add: endsWith_def)
  from C8_abs_link_to_pdf_link
      [where rt = example_runtime and st = initial_state and q = "''nets''" and n = 5
         and sb = "''relevance''" and now = 100000
         and resp = "Fetched (Response 200 ''OK'' (Inr example_feed))"
         and out = "projr (result example_arxiv_call)",
       THEN conjunct2, THEN conjunct1, THEN mp, OF run]
  have 5: "map pdfLink (papers (projr (result example_arxiv_call))) =
       map (\<lambda>entry. toPdfLink (e_link entry)) (parseArxivXML example_runtime example_feed)"
    by auto
  from a 1 b 2 c 3 d 4 5 show ?thesis by (intro conjI)
qed

text \<open>
  C9. Every paper that the arXiv tool returns has a \<^verbatim>\<open>pdfLink\<close> that is not empty and
  ends with \<^verbatim>\<open>.pdf\<close>. The link of a parsed entry is never empty: where the payload
  carries none, it is \<^verbatim>\<open>https://arxiv.org/abs/\<close> followed by the id of the entry.
\<close>

theorem C9_pdf_link_suffix:
  "(result (searchArxiv rt st q n sb now resp) = Inr out \<longrightarrow>
      (\<forall>p \<in> set (papers out). pdfLink p \<noteq> [] \<and> endsWith (pdfLink p) ''.pdf''))
   \<and> (parseEntry rt e = Some entry \<longrightarrow>
      e_link entry = (if extractLink e = [] then ''https://arxiv.org/abs/'' @ e_id entry
                      else extractLink e)
      \<and> e_link entry \<noteq> [])"
proof (intro conjI impI)
  assume s: "result (searchArxiv rt st q n sb now resp) = Inr out"
  from searchArxiv_Inr [OF s] obtain r xml where
    r: "resp = Fetched r" "ok r" "body r = Inr xml" "ARXIV_COOLDOWN_MS \<le> now - lastArxivCall st"
    by blast
  from s searchArxiv_success [OF r(4) r(2) r(3), of rt q n sb]
  have "papers out = map simplifyArxiv (parseArxivXML rt xml)"
    by (auto simp: r(1))
  then show "\<forall>p \<in> set (papers out). pdfLink p \<noteq> [] \<and> endsWith (pdfLink p) ''.pdf''"
    using toPdfLink_pdf endsWith_nonempty [OF toPdfLink_pdf]
    by (auto simp: simplifyArxiv_def)
next
  assume p: "parseEntry rt e = Some entry"
  then show "e_link entry = (if extractLink e = [] then ''https://arxiv.org/abs/'' @ e_id entry
                      else extractLink e)"
    by (auto simp: parseEntry_def Let_def split: if_splits)
  from p show "e_link entry \<noteq> []"
    by (auto simp: parseEntry_def Let_def split: if_splits)
qed

theorem C9_pdf_link_suffix_witness:
  "result example_arxiv_call =
     Inr \<lparr>papers =
        [\<lparr>ap_title = ''Deep Nets'', ap_abstract = ''We study nets.'',
          ap_published = ''2023-01-30'', pdfLink = ''https://arxiv.org/pdf/2301.12345.pdf'',
          arxivId = ''2301.12345v1''\<rparr>,
         \<lparr>ap_title = ''No Link'', ap_abstract = [], ap_published = [],
          pdfLink = ''https://arxiv.org/pdf/2302.00001v2.pdf'', arxivId = ''2302.00001v2''\<rparr>]\<rparr>
   \<and> endsWith ''https://arxiv.org/pdf/2301.12345.pdf'' ''.pdf''
   \<and> endsWith ''https://arxiv.org/pdf/2302.00001v2.pdf'' ''.pdf''"
proof -
  have run: "result (searchArxiv example_runtime initial_state ''nets'' 5 ''relevance'' 100000
               (Fetched (Response 200 ''OK'' (Inr example_feed)))) =
     Inr \<lparr>papers =
        [\<lparr>ap_title = ''Deep Nets'', ap_abstract = ''We study nets.'',
          ap_published = ''2023-01-30'', pdfLink = ''https://arxiv.org/pdf/2301.12345.pdf'',
          arxivId = ''2301.12345v1''\<rparr>,
         \<lparr>ap_title = ''No Link'', ap_abstract = [], ap_published = [],
          pdfLink = ''https://arxiv.org/pdf/2302.00001v2.pdf'', arxivId = ''2302.00001v2''\<rparr>]\<rparr>"
    using example_arxiv_call_result by (simp add: example_arxiv_call_def)
  from C9_pdf_link_suffix [THEN conjunct1, THEN mp, OF run] run show ?thesis
    by (simp add: example_arxiv_call_def)
qed

text \<open>
  C10, as the claim states it, fails: when \<^verbatim>\<open>generateContent\<close> rejects with a value that is
  no \<^verbatim>\<open>Error\<close> and has no conversion to a string, \<^verbatim>\<open>String(error)\<close> in the \<^verbatim>\<open>catch\<close> block of
  \<^verbatim>\<open>searchTopConferences\<close> throws a \<^verbatim>\<open>TypeError\<close>, \<^verbatim>\<open>searchTopConferences\<close> throws it, and
  \<^verbatim>\<open>execute\<close> returns \<^verbatim>\<open>success: false\<close> with the message of that error in \<^verbatim>\<open>error\<close>.
\<close>

theorem C10_counterexample:
  "effects (googleGroundingSearchTool example_runtime initial_state ''nets'' 7
      (GenerateThrows Inconvertible)) = [GenerateContent ''nets'']
   \<and> result (searchTopConferences example_runtime initial_state ''nets''
      (GenerateThrows Inconvertible)) = Inl ConversionError
   \<and> result (googleGroundingSearchTool example_runtime initial_state ''nets'' 7
      (GenerateThrows Inconvertible)) =
     Inr \<lparr>papers = [], content = ExecuteError ''nets'', citations = [], searchId = 7,
          query = ''nets'', success = False, error = Some ConversionError\<rparr>"
  by (simp add: googleGroundingSearchTool_def searchTopConferences_def conferenceTry_def
        getGenAIClient_def example_runtime_def initial_state_def Let_def)

text \<open>
  C10, amended. When the generative call of the conference search throws an \<^verbatim>\<open>Error\<close>, or
  a value that \<^verbatim>\<open>String\<close> converts, or when no client could be created,
  \<^verbatim>\<open>searchTopConferences\<close> returns the apology with the message of the error (the one of
  the missing API key when no client could be created) and no papers and no citations,
  and \<^verbatim>\<open>execute\<close> returns that with \<^verbatim>\<open>success: true\<close>. When it throws a value that has no
  conversion to a string, \<^verbatim>\<open>searchTopConferences\<close> throws the error of the conversion and
  \<^verbatim>\<open>execute\<close> returns \<^verbatim>\<open>success: false\<close> with the message of that error. This is the only
  input on which \<^verbatim>\<open>searchTopConferences\<close> throws, and the only one on which \<^verbatim>\<open>execute\<close>
  returns \<^verbatim>\<open>success: false\<close>; \<^verbatim>\<open>execute\<close> returns on every input, with an \<^verbatim>\<open>error\<close> exactly
  when \<^verbatim>\<open>success\<close> is false.
\<close>

theorem C10_generative_failure_is_success:
  "(e \<noteq> Inconvertible \<or> isl (getGenAIClient rt st) \<longrightarrow>
      result (googleGroundingSearchTool rt st q sid (GenerateThrows e)) =
        Inr \<lparr>papers = [],
             content = Apology (case getGenAIClient rt st of Inl e0 \<Rightarrow> e0 | Inr st1 \<Rightarrow> e),
             citations = [], searchId = sid, query = q, success = True, error = None\<rparr>)
   \<and> (\<not> isl (getGenAIClient rt st) \<longrightarrow>
      result (searchTopConferences rt st q (GenerateThrows Inconvertible)) = Inl ConversionError
      \<and> result (googleGroundingSearchTool rt st q sid (GenerateThrows Inconvertible)) =
          Inr \<lparr>papers = [], content = ExecuteError q, citations = [], searchId = sid,
               query = q, success = False, error = Some ConversionError\<rparr>)
   \<and> (result (searchTopConferences rt st q gen) = Inl x) =
       (x = ConversionError \<and> gen = GenerateThrows Inconvertible
        \<and> \<not> isl (getGenAIClient rt st))
   \<and> (\<exists>out. result (googleGroundingSearchTool rt st q sid gen) = Inr out
         \<and> success out = (\<not> (gen = GenerateThrows Inconvertible
                               \<and> \<not> isl (getGenAIClient rt st)))
         \<and> (error out = None) = success out)"
proof (intro conjI impI)
  assume a: "e \<noteq> Inconvertible \<or> isl (getGenAIClient rt st)"
  show "result (googleGroundingSearchTool rt st q sid (GenerateThrows e)) =
        Inr \<lparr>papers = [],
             content = Apology (case getGenAIClient rt st of Inl e0 \<Rightarrow> e0 | Inr st1 \<Rightarrow> e),
             citations = [], searchId = sid, query = q, success = True, error = None\<rparr>"
  proof (cases "getGenAIClient rt st")
    case (Inl e0)
    then have "e0 = ApiKeyNotFound" by (rule getGenAIClient_Inl)
    then have n: "e0 \<noteq> Inconvertible" by simp
    from Inl have "conferenceTry rt st q (GenerateThrows e) = (Inl e0, [], st)"
      by (simp add: conferenceTry_def)
    from googleGroundingSearchTool_apology [OF this n, of sid] Inl show ?thesis by simp
  next
    case (Inr st1)
    with a have n: "e \<noteq> Inconvertible" by auto
    from Inr have "conferenceTry rt st q (GenerateThrows e) = (Inl e, [GenerateContent q], st1)"
      by (simp add: conferenceTry_def)
    from googleGroundingSearchTool_apology [OF this n, of sid] Inr show ?thesis by simp
  qed
next
  assume "\<not> isl (getGenAIClient rt st)"
  then obtain st1 where k: "getGenAIClient rt st = Inr st1"
    by (cases "getGenAIClient rt st") auto
  then have c: "conferenceTry rt st q (GenerateThrows Inconvertible) =
      (Inl Inconvertible, [GenerateContent q], st1)"
    by (simp add: conferenceTry_def)
  then show "result (searchTopConferences rt st q (GenerateThrows Inconvertible)) =
      Inl ConversionError"
    by (simp add: searchTopConferences_def)
  from c show "result (googleGroundingSearchTool rt st q sid (GenerateThrows Inconvertible)) =
          Inr \<lparr>papers = [], content = ExecuteError q, citations = [], searchId = sid,
               query = q, success = False, error = Some ConversionError\<rparr>"
    by (rule googleGroundingSearchTool_thrown)
next
  show "(result (searchTopConferences rt st q gen) = Inl x) =
       (x = ConversionError \<and> gen = GenerateThrows Inconvertible
        \<and> \<not> isl (getGenAIClient rt st))"
    by (rule searchTopConferences_throws)
next
  from googleGroundingSearchTool_success [of rt st q sid gen] obtain out where
    out: "result (googleGroundingSearchTool rt st q sid gen) = Inr out"
      "success out = (\<not> isl (result (searchTopConferences rt st q gen)))"
      "(error out = None) = success out"
    by auto
  have "isl (result (searchTopConferences rt st q gen)) =
      (gen = GenerateThrows Inconvertible \<and> \<not> isl (getGenAIClient rt st))"
    using searchTopConferences_throws [of rt st q gen]
    by (cases "result (searchTopConferences rt st q gen)") auto
  with out have "result (googleGroundingSearchTool rt st q sid gen) = Inr out
         \<and> success out = (\<not> (gen = GenerateThrows Inconvertible
                               \<and> \<not> isl (getGenAIClient rt st)))
         \<and> (error out = None) = success out"
    by simp
  then show "\<exists>out. result (googleGroundingSearchTool rt st q sid gen) = Inr out
         \<and> success out = (\<not> (gen = GenerateThrows Inconvertible
                               \<and> \<not> isl (getGenAIClient rt st)))
         \<and> (error out = None) = success out"
    ..
qed

theorem C10_generative_failure_is_success_witness:
  "NonError \<noteq> Inconvertible
   \<and> result (googleGroundingSearchTool example_runtime initial_state ''nets'' 7
        (GenerateThrows NonError)) =
       Inr \<lparr>papers = [], content = Apology NonError, citations = [], searchId = 7,
            query = ''nets'', success = True, error = None\<rparr>
   \<and> isl (getGenAIClient (example_runtime\<lparr>GEMINI_API_KEY := None\<rparr>) initial_state)
   \<and> result (googleGroundingSearchTool (example_runtime\<lparr>GEMINI_API_KEY := None\<rparr>)
        initial_state ''nets'' 7 (GenerateThrows Inconvertible)) =
       Inr \<lparr>papers = [], content = Apology ApiKeyNotFound, citations = [], searchId = 7,
            query = ''nets'', success = True, error = None\<rparr>
   \<and> \<not> isl (getGenAIClient example_runtime initial_state)
   \<and> result (googleGroundingSearchTool example_runtime initial_state ''nets'' 7
        (GenerateThrows Inconvertible)) =
       Inr \<lparr>papers = [], content = ExecuteError ''nets'', citations = [], searchId = 7,
            query = ''nets'', success = False, error = Some ConversionError\<rparr>"
proof -
  have key: "getGenAIClient example_runtime initial_state = Inr (initial_state\<lparr>genai := True\<rparr>)"
    by (simp add: getGenAIClient_def example_runtime_def initial_state_def)
  have nokey: "getGenAIClient (example_runtime\<lparr>GEMINI_API_KEY := None\<rparr>) initial_state =
      Inl ApiKeyNotFound"
    by (simp add: getGenAIClient_def example_runtime_def initial_state_def)
  have a: "NonError \<noteq> Inconvertible \<or> isl (getGenAIClient example_runtime initial_state)"
    by simp
  have b: "Inconvertible \<noteq> Inconvertible
      \<or> isl (getGenAIClient (example_runtime\<lparr>GEMINI_API_KEY := None\<rparr>) initial_state)"
    by (simp add: nokey)
  have c: "\<not> isl (getGenAIClient example_runtime initial_state)"
    by (simp add: key)
  have 1: "result (googleGroundingSearchTool example_runtime initial_state ''nets'' 7
        (GenerateThrows NonError)) =
       Inr \<lparr>papers = [], content = Apology NonError, citations = [], searchId = 7,
            query = ''nets'', success = True, error = None\<rparr>"
    using C10_generative_failure_is_success
      [where e = NonError and rt = example_runtime and st = initial_state and q = "''nets''"
         and sid = 7, THEN conjunct1, THEN mp, OF a]
    by (simp add: key)
  have 2: "result (googleGroundingSearchTool (example_runtime\<lparr>GEMINI_API_KEY := None\<rparr>)
        initial_state ''nets'' 7 (GenerateThrows Inconvertible)) =
       Inr \<lparr>papers = [], content = Apology ApiKeyNotFound, citations = [], searchId = 7,
            query = ''nets'', success = True, error = None\<rparr>"
    using C10_generative_failure_is_success
      [where e = Inconvertible and rt = "example_runtime\<lparr>GEMINI_API_KEY := None\<rparr>"
         and st = initial_state and q = "''nets''" and sid = 7,
       THEN conjunct1, THEN mp, OF b]
    by (simp add: nokey)
  note 3 = C10_generative_failure_is_success
      [where rt = example_runtime and st = initial_state and q = "''nets''" and sid = 7,
       THEN conjunct2, THEN conjunct1, THEN mp, OF c, THEN conjunct2]
  from 1 2 3 b c nokey show ?thesis by simp
qed

end
